theory Spec2Isabelle
  imports Complex_Main
begin

section \<open>JavaScript strings\<close>

text \<open>
  A JavaScript string is a sequence of UTF-16 code units; \<open>length\<close>, \<open>substring\<close> and
  \<open>lastIndexOf\<close> count code units. The model uses \<^typ>\<open>string\<close>, one \<^typ>\<open>char\<close> for one
  code unit, so it covers the strings whose code units are below 256. Positions and sizes
  are \<^typ>\<open>int\<close>, as the integer values of JavaScript numbers are; fractional numbers are
  outside the model.
\<close>

definition substring :: "string \<Rightarrow> int \<Rightarrow> int \<Rightarrow> string" where
  \<comment> \<open>\<open>s.substring(a, b)\<close>: both indices are clamped to \<open>[0, s.length]\<close> and swapped when
      \<open>a > b\<close>.\<close>
  "substring s a b =
     (let n = int (length s);
          a' = max 0 (min a n);
          b' = max 0 (min b n);
          lo = min a' b';
          hi = max a' b'
      in take (nat (hi - lo)) (drop (nat lo) s))"

definition startsWith :: "string \<Rightarrow> string \<Rightarrow> bool" where
  \<comment> \<open>\<open>s.startsWith(p)\<close>\<close>
  "startsWith s p = (take (length p) s = p)"

definition matchesAt :: "string \<Rightarrow> string \<Rightarrow> nat \<Rightarrow> bool" where
  \<comment> \<open>the pattern \<open>p\<close> occurs in \<open>s\<close> at position \<open>i\<close>\<close>
  "matchesAt s p i = startsWith (drop i s) p"

fun lastIndexUpTo :: "string \<Rightarrow> string \<Rightarrow> nat \<Rightarrow> int" where
  "lastIndexUpTo s p 0 = (if matchesAt s p 0 then 0 else - 1)"
| "lastIndexUpTo s p (Suc i) =
     (if matchesAt s p (Suc i) then int (Suc i) else lastIndexUpTo s p i)"

definition lastIndexOf :: "string \<Rightarrow> string \<Rightarrow> int" where
  \<comment> \<open>\<open>s.lastIndexOf(p)\<close>: the greatest position where \<open>p\<close> occurs, or \<open>-1\<close>\<close>
  "lastIndexOf s p = lastIndexUpTo s p (length s)"

fun includesStr :: "string \<Rightarrow> string \<Rightarrow> bool" where
  \<comment> \<open>\<open>s.includes(p)\<close>\<close>
  "includesStr [] p = (p = [])"
| "includesStr (c # cs) p = (startsWith (c # cs) p \<or> includesStr cs p)"

fun splitChar :: "char \<Rightarrow> string \<Rightarrow> string list" where
  \<comment> \<open>\<open>s.split(sep)\<close> for a separator of one character\<close>
  "splitChar sep [] = [[]]"
| "splitChar sep (c # cs) =
     (if c = sep then [] # splitChar sep cs
      else (case splitChar sep cs of [] \<Rightarrow> [[c]] | l # ls \<Rightarrow> (c # l) # ls))"

fun join :: "string \<Rightarrow> string list \<Rightarrow> string" where
  \<comment> \<open>\<open>xs.join(sep)\<close> on an array of strings\<close>
  "join sep [] = []"
| "join sep [x] = x"
| "join sep (x # y # ys) = x @ sep @ join sep (y # ys)"

definition TAB :: char where
  "TAB = CHR 0x09"

definition isDigit :: "char \<Rightarrow> bool" where
  \<comment> \<open>the class \<open>\\d\<close> of a regular expression without the unicode flag\<close>
  "isDigit c = (c \<in> set ''0123456789'')"

definition isWhiteSpace :: "char \<Rightarrow> bool" where
  \<comment> \<open>the white space and line terminators that \<open>trim\<close> strips, among the code units
      below 256: TAB, LF, VT, FF, CR, SP and NBSP\<close>
  "isWhiteSpace c = (of_char c \<in> {9, 10, 11, 12, 13, 32, 160 :: nat})"

definition trim :: "string \<Rightarrow> string" where
  "trim s = rev (dropWhile isWhiteSpace (rev (dropWhile isWhiteSpace s)))"

definition lowerChar :: "char \<Rightarrow> char" where
  \<comment> \<open>the lower-case mapping on the code units below 256: A-Z and the Latin-1 capitals\<close>
  "lowerChar c =
     (case map_of (zip ''ABCDEFGHIJKLMNOPQRSTUVWXYZ'' ''abcdefghijklmnopqrstuvwxyz'') c of
        Some l \<Rightarrow> l
      | None \<Rightarrow>
          (let n = (of_char c :: nat)
           in if 192 \<le> n \<and> n \<le> 222 \<and> n \<noteq> 215 then char_of (n + 32) else c))"

definition toLowerCase :: "string \<Rightarrow> string" where
  "toLowerCase s = map lowerChar s"

fun showNat :: "nat \<Rightarrow> string" where
  \<comment> \<open>the decimal digits of a non-negative integer, as template literals print it\<close>
  "showNat n =
     (if n < 10 then [''0123456789'' ! n]
      else showNat (n div 10) @ [''0123456789'' ! (n mod 10)])"

declare showNat.simps [simp del]

definition showInt :: "int \<Rightarrow> string" where
  "showInt i = (if i < 0 then CHR ''-'' # showNat (nat (- i)) else showNat (nat i))"

section \<open>JavaScript values and built-ins\<close>

text \<open>
  The values that \<open>JSON.parse\<close> returns, and \<open>undefined\<close>. Numbers are rationals: \<open>NaN\<close>
  and the infinities are outside the model.
\<close>

datatype jsval =
    Undefined
  | Null
  | Bool bool
  | Num rat
  | Str string
  | Arr "jsval list"
  | Obj "(string \<times> jsval) list"

fun truthy :: "jsval \<Rightarrow> bool" where
  "truthy Undefined = False"
| "truthy Null = False"
| "truthy (Bool b) = b"
| "truthy (Num n) = (n \<noteq> 0)"
| "truthy (Str s) = (s \<noteq> [])"
| "truthy (Arr xs) = True"
| "truthy (Obj kvs) = True"

definition arr_get :: "jsval list \<Rightarrow> nat \<Rightarrow> jsval" where
  \<comment> \<open>\<open>xs[i]\<close> on an array: \<open>undefined\<close> out of range\<close>
  "arr_get xs i = (if i < length xs then xs ! i else Undefined)"

fun js_get :: "jsval \<Rightarrow> nat \<Rightarrow> jsval option" where
  \<comment> \<open>\<open>v[i]\<close> on any value: \<open>None\<close> is the TypeError raised on \<open>null\<close> and \<open>undefined\<close>\<close>
  "js_get Undefined i = None"
| "js_get Null i = None"
| "js_get (Arr xs) i = Some (arr_get xs i)"
| "js_get (Str s) i = Some (if i < length s then Str [s ! i] else Undefined)"
| "js_get (Obj kvs) i = Some (case map_of kvs (showNat i) of Some v \<Rightarrow> v | None \<Rightarrow> Undefined)"
| "js_get (Bool b) i = Some Undefined"
| "js_get (Num n) i = Some Undefined"

definition isInteger :: "rat \<Rightarrow> bool" where
  \<comment> \<open>\<open>Number.isInteger\<close>\<close>
  "isInteger q = (of_int \<lfloor>q\<rfloor> = q)"

record URL =
  protocol :: string
  hostname :: string
  port :: string
  pathname :: string
  searchParams :: "(string \<times> string) list"
  hash :: string

text \<open>
  The built-ins of the platform that the code calls and that are not modelled further: a
  parser is given by its result, \<open>None\<close> when it throws.
\<close>

record builtins =
  JSON_parse :: "jsval \<Rightarrow> jsval option"
  URL_parse :: "string \<Rightarrow> URL option"
  URL_toString :: "URL \<Rightarrow> string"
  decodeURIComponent :: "string \<Rightarrow> string option"

section \<open>Notebook details\<close>

record Source =
  source_id :: string
  source_title :: string
  source_type :: string
  typeCode :: int
  source_url :: "string option"
  source_status :: rat

record NotebookDetails =
  nb_id :: jsval
  nb_title :: jsval
  sources :: "Source list"

definition API_TYPE_MAP :: "(int \<times> string) list" where
  "API_TYPE_MAP =
     [(1, ''gdrive''), (2, ''text''), (3, ''pdf''), (4, ''text''), (5, ''url''),
      (6, ''slides''), (7, ''pdf''), (8, ''note''), (9, ''youtube''), (10, ''video''),
      (13, ''image''), (14, ''pdf''), (15, ''mindmap'')]"

definition inTypeMap :: "int \<Rightarrow> bool" where
  \<comment> \<open>\<open>code in this.API_TYPE_MAP\<close>\<close>
  "inTypeMap code = (map_of API_TYPE_MAP code \<noteq> None)"

definition isHex :: "char \<Rightarrow> bool" where
  "isHex c = (c \<in> set ''0123456789abcdefABCDEF'')"

fun matchGroups :: "nat list \<Rightarrow> string \<Rightarrow> bool" where
  \<comment> \<open>groups of hexadecimal digits of the given sizes, separated by \<open>-\<close>, and nothing else\<close>
  "matchGroups [] s = False"
| "matchGroups [n] s = (length s = n \<and> list_all isHex s)"
| "matchGroups (n # m # ns) s =
     (length (take n s) = n \<and> list_all isHex (take n s) \<and> startsWith (drop n s) ''-'' \<and>
      matchGroups (m # ns) (drop (Suc n) s))"

definition isUUID :: "string \<Rightarrow> bool" where
  "isUUID str = matchGroups [8, 4, 4, 4, 12] str"

definition isURL :: "string \<Rightarrow> bool" where
  "isURL str = (startsWith str ''http://'' \<or> startsWith str ''https://'')"

fun findURLInStructure :: "jsval \<Rightarrow> nat \<Rightarrow> string option"
  and findURLInItems :: "jsval list \<Rightarrow> nat \<Rightarrow> string option" where
  "findURLInStructure data depth =
     (if depth > 5 then None
      else (case data of
              Str s \<Rightarrow> if isURL s then Some s else None
            | Arr items \<Rightarrow> findURLInItems items (depth + 1)
            | _ \<Rightarrow> None))"
| "findURLInItems [] depth = None"
| "findURLInItems (item # items) depth =
     (case findURLInStructure item depth of
        Some found \<Rightarrow> Some found
      | None \<Rightarrow> findURLInItems items depth)"

definition extractSourceId :: "jsval list \<Rightarrow> string" where
  "extractSourceId source =
     (case arr_get source 0 of
        Arr (Str s # rest) \<Rightarrow> s
      | Str s \<Rightarrow> if isUUID s then s else []
      | _ \<Rightarrow> [])"

definition extractTitle :: "jsval list \<Rightarrow> string" where
  "extractTitle source =
     (case arr_get source 1 of
        Str s \<Rightarrow> if length s > 0 then s else ''Untitled''
      | _ \<Rightarrow> ''Untitled'')"

definition metaTypeCode :: "jsval list \<Rightarrow> int" where
  \<comment> \<open>the type code at \<open>source[2][4]\<close>, or the initial \<open>0\<close>\<close>
  "metaTypeCode source =
     (case arr_get source 2 of
        Arr meta \<Rightarrow>
          (case arr_get meta 4 of
             Num q \<Rightarrow> if isInteger q then \<lfloor>q\<rfloor> else 0
           | _ \<Rightarrow> 0)
      | _ \<Rightarrow> 0)"

definition metaUrl :: "jsval list \<Rightarrow> string option" where
  \<comment> \<open>the URL at \<open>source[2][7][0]\<close>, or the initial \<open>null\<close>\<close>
  "metaUrl source =
     (case arr_get source 2 of
        Arr meta \<Rightarrow>
          (case arr_get meta 7 of
             Arr (Str u # rest) \<Rightarrow> Some u
           | _ \<Rightarrow> None)
      | _ \<Rightarrow> None)"

definition extractStatus :: "jsval list \<Rightarrow> rat" where
  \<comment> \<open>the status at \<open>source[3][1]\<close>, or the default \<open>2\<close> (ready)\<close>
  "extractStatus source =
     (case arr_get source 3 of
        Arr st \<Rightarrow>
          (if length st > 1 then (case arr_get st 1 of Num q \<Rightarrow> q | _ \<Rightarrow> 2) else 2)
      | _ \<Rightarrow> 2)"

fun findTypeItem :: "jsval list \<Rightarrow> int option" where
  \<comment> \<open>the inner loop of the broader search: the first integer of the array that is a key
      of \<open>API_TYPE_MAP\<close>\<close>
  "findTypeItem [] = None"
| "findTypeItem (item # items) =
     (case item of
        Num q \<Rightarrow> if isInteger q \<and> inTypeMap \<lfloor>q\<rfloor> then Some \<lfloor>q\<rfloor> else findTypeItem items
      | _ \<Rightarrow> findTypeItem items)"

fun searchTypeCode :: "jsval list \<Rightarrow> int \<Rightarrow> int" where
  \<comment> \<open>the outer loop of the broader search, over \<open>source[2]\<close>, \<open>source[3]\<close>, \<open>source[4]\<close>\<close>
  "searchTypeCode [] apiTypeCode = apiTypeCode"
| "searchTypeCode (x # xs) apiTypeCode =
     (case x of
        Arr items \<Rightarrow>
          (let code = (case findTypeItem items of Some c \<Rightarrow> c | None \<Rightarrow> apiTypeCode)
           in if code \<noteq> 0 then code else searchTypeCode xs code)
      | _ \<Rightarrow> searchTypeCode xs apiTypeCode)"

fun matchesPdf :: "string \<Rightarrow> bool" where
  \<comment> \<open>\<open>url.match(/\.pdf(\?|$)/i)\<close> finds a match\<close>
  "matchesPdf [] = False"
| "matchesPdf (c # cs) =
     ((toLowerCase (take 4 (c # cs)) = ''.pdf'' \<and>
       (drop 4 (c # cs) = [] \<or> startsWith (drop 4 (c # cs)) ''?'')) \<or>
      matchesPdf cs)"

definition inferTypeFromUrl :: "string \<Rightarrow> int" where
  "inferTypeFromUrl sourceUrl =
     (if includesStr sourceUrl ''youtube.com'' \<or> includesStr sourceUrl ''youtu.be'' then 9
      else if matchesPdf sourceUrl then 3
      else if includesStr sourceUrl ''docs.google.com'' \<or>
              includesStr sourceUrl ''drive.google.com'' then 1
      else 5)"

definition fallbackTitle :: "jsval list \<Rightarrow> string \<Rightarrow> string option" where
  \<comment> \<open>the loop from the last element of the row down to the first\<close>
  "fallbackTitle source sourceId =
     (case find (\<lambda>item. case item of
                    Str s \<Rightarrow> length s > 1 \<and> \<not> isUUID s \<and> \<not> isURL s \<and>
                             \<not> (s \<noteq> [] \<and> list_all isDigit s) \<and> s \<noteq> sourceId
                  | _ \<Rightarrow> False) (rev source) of
        Some (Str s) \<Rightarrow> Some s
      | _ \<Rightarrow> None)"

definition urlTitle :: "builtins \<Rightarrow> string \<Rightarrow> string" where
  \<comment> \<open>the title taken from the URL; the \<open>catch\<close> branch is \<open>sourceUrl.substring(0, 80)\<close>\<close>
  "urlTitle B sourceUrl =
     (case URL_parse B sourceUrl of
        None \<Rightarrow> substring sourceUrl 0 80
      | Some urlObj \<Rightarrow>
          (let pathParts = filter (\<lambda>p. p \<noteq> []) (splitChar (CHR ''/'') (pathname urlObj))
           in if length pathParts > 0 then
                (case decodeURIComponent B (last pathParts) of
                   None \<Rightarrow> substring sourceUrl 0 80
                 | Some d \<Rightarrow>
                     map (\<lambda>c. if c = CHR ''_'' \<or> c = CHR ''-'' then CHR '' '' else c) d)
              else hostname urlObj))"

definition parseSource :: "builtins \<Rightarrow> jsval list \<Rightarrow> Source" where
  \<comment> \<open>the function mapped over the rows of the sources array\<close>
  "parseSource B source =
     (let sourceId = extractSourceId source;
          sourceTitle = extractTitle source;
          apiTypeCode0 = metaTypeCode source;
          sourceUrl0 = metaUrl source;
          sourceStatus = extractStatus source;
          apiTypeCode1 =
            (if apiTypeCode0 = 0 \<or> \<not> inTypeMap apiTypeCode0
             then searchTypeCode (take 3 (drop 2 source)) apiTypeCode0 else apiTypeCode0);
          sourceUrl =
            (case sourceUrl0 of
               Some u \<Rightarrow> if u \<noteq> [] then Some u else findURLInStructure (Arr source) 0
             | None \<Rightarrow> findURLInStructure (Arr source) 0);
          apiTypeCode2 =
            (case sourceUrl of
               Some u \<Rightarrow> if apiTypeCode1 = 0 \<and> u \<noteq> [] then inferTypeFromUrl u else apiTypeCode1
             | None \<Rightarrow> apiTypeCode1);
          apiTypeCode = (if apiTypeCode2 = 0 then 2 else apiTypeCode2);
          sourceTitle1 =
            (if sourceTitle = ''Untitled''
             then (case fallbackTitle source sourceId of Some t \<Rightarrow> t | None \<Rightarrow> sourceTitle)
             else sourceTitle);
          sourceTitle2 =
            (case sourceUrl of
               Some u \<Rightarrow> if sourceTitle1 = ''Untitled'' \<and> u \<noteq> [] then urlTitle B u else sourceTitle1
             | None \<Rightarrow> sourceTitle1);
          typeName = (case map_of API_TYPE_MAP apiTypeCode of Some t \<Rightarrow> t | None \<Rightarrow> ''unknown'')
      in \<lparr>source_id = sourceId, source_title = sourceTitle2, source_type = typeName,
          typeCode = apiTypeCode, source_url = sourceUrl, source_status = sourceStatus\<rparr>)"

fun sourceRows :: "jsval list \<Rightarrow> jsval list list" where
  \<comment> \<open>the filter on the sources array: the rows that are non-empty arrays\<close>
  "sourceRows [] = []"
| "sourceRows (Arr row # rest) = (if length row > 0 then row # sourceRows rest else sourceRows rest)"
| "sourceRows (other # rest) = sourceRows rest"

definition emptyDetails :: NotebookDetails where
  "emptyDetails = \<lparr>nb_id = Str [], nb_title = Str [], sources = []\<rparr>"

definition orEmpty :: "jsval \<Rightarrow> jsval" where
  \<comment> \<open>\<open>v || ''\<close>\<close>
  "orEmpty v = (if truthy v then v else Str [])"

definition parseNotebookDetails :: "builtins \<Rightarrow> string \<Rightarrow> NotebookDetails" where
  \<comment> \<open>every exception raised inside is caught and gives the empty details\<close>
  "parseNotebookDetails B responseText =
     (case find (\<lambda>line. includesStr line ''wrb.fr'') (splitChar (CHR ''\<newline>'') responseText) of
        None \<Rightarrow> emptyDetails
      | Some dataLine \<Rightarrow>
          (case JSON_parse B (Str dataLine) of
             None \<Rightarrow> emptyDetails
           | Some parsed \<Rightarrow>
               (case Option.bind (js_get parsed 0) (\<lambda>p0. js_get p0 2) of
                  None \<Rightarrow> emptyDetails
                | Some inner \<Rightarrow>
                    (case JSON_parse B inner of
                       None \<Rightarrow> emptyDetails
                     | Some innerData \<Rightarrow>
                         (case (if truthy innerData then js_get innerData 0 else None) of
                            None \<Rightarrow> emptyDetails
                          | Some notebookData \<Rightarrow>
                              if \<not> truthy notebookData then emptyDetails
                              else
                                (case (js_get notebookData 0, js_get notebookData 1,
                                       js_get notebookData 2) of
                                   (Some t, Some srcs, Some i) \<Rightarrow>
                                     \<lparr>nb_id = orEmpty i, nb_title = orEmpty t,
                                      sources =
                                        map (parseSource B)
                                          (sourceRows (case srcs of Arr xs \<Rightarrow> xs | _ \<Rightarrow> []))\<rparr>
                                 | _ \<Rightarrow> emptyDetails))))))"

section \<open>The text splitter\<close>

record Chunk =
  chunk_text :: string
  chunk_index :: int
  chunk_start :: int
  chunk_end :: int

definition chunkEnd :: "int \<Rightarrow> string \<Rightarrow> int \<Rightarrow> int" where
  \<comment> \<open>the value of \<open>end\<close> that one iteration of the loop of \<open>splitText\<close> computes\<close>
  "chunkEnd chunkSize text start =
     (let endPos = start + chunkSize in
      if endPos < int (length text) then
        (let searchStart = max start (endPos - 200);
             searchEnd = min (int (length text)) (endPos + 200);
             searchText = substring text searchStart searchEnd;
             breakPoint =
               (if lastIndexOf searchText ''\<newline>\<newline>'' = - 1 then
                  (if lastIndexOf searchText ''. '' = - 1 then lastIndexOf searchText '' ''
                   else lastIndexOf searchText ''. '')
                else lastIndexOf searchText ''\<newline>\<newline>'')
         in if breakPoint \<noteq> - 1 then
              searchStart + breakPoint +
                (if breakPoint = lastIndexOf searchText ''\<newline>\<newline>'' then 2 else 1)
            else endPos)
      else int (length text))"

partial_function (option) splitLoop ::
  "int \<Rightarrow> int \<Rightarrow> string \<Rightarrow> Chunk list \<Rightarrow> int \<Rightarrow> int \<Rightarrow> Chunk list option" where
  "splitLoop chunkSize chunkOverlap text chunks start index =
     (if start < int (length text) then
        (let endPos = chunkEnd chunkSize text start;
             chunkText = substring text start endPos
         in splitLoop chunkSize chunkOverlap text
              (chunks @ [\<lparr>chunk_text = chunkText, chunk_index = index,
                           chunk_start = start, chunk_end = endPos\<rparr>])
              (max (start + 1) (endPos - chunkOverlap)) (index + 1))
      else Some chunks)"

declare splitLoop.simps [code]

definition splitText :: "int \<Rightarrow> int \<Rightarrow> string \<Rightarrow> Chunk list option" where
  \<comment> \<open>\<open>new TextSplitter(chunkSize, chunkOverlap).splitText(text)\<close>; \<open>None\<close> stands for a loop
      that does not return\<close>
  "splitText chunkSize chunkOverlap text =
     (if int (length text) \<le> chunkSize then
        Some [\<lparr>chunk_text = text, chunk_index = 0, chunk_start = 0,
               chunk_end = int (length text)\<rparr>]
      else splitLoop chunkSize chunkOverlap text [] 0 0)"

section \<open>Flashcard export\<close>

record Flashcard =
  fc_front :: string
  fc_back :: string
  fc_tags :: "string list option"

definition replaceTabs :: "string \<Rightarrow> string" where
  \<comment> \<open>\<open>s.replace(/\t/g, ' ')\<close>\<close>
  "replaceTabs s = map (\<lambda>c. if c = TAB then CHR '' '' else c) s"

definition ankiRow :: "Flashcard \<Rightarrow> string" where
  \<comment> \<open>the template literal mapped over the flashcards\<close>
  "ankiRow fc =
     replaceTabs (fc_front fc) @ [TAB] @ replaceTabs (fc_back fc) @ [TAB] @
     join '' '' (case fc_tags fc of Some ts \<Rightarrow> ts | None \<Rightarrow> [])"

definition flashcardsToAnki :: "Flashcard list \<Rightarrow> string" where
  "flashcardsToAnki flashcards = join ''\<newline>'' (map ankiRow flashcards)"

section \<open>The notebook service\<close>

datatype js_error = JsError string

fun message :: "js_error \<Rightarrow> string" where
  "message (JsError m) = m"

record rpc_call =
  rpcId :: string
  params :: jsval
  sourcePath :: string

record File =
  file_name :: string

text \<open>
  The environment gives the outcome of every call that leaves the program: the \<open>n\<close>-th call
  of \<open>rpc\<close> (its raw response text, or the error it throws), the selection of the active tab
  and the readers of a file. The index \<open>n\<close> is the number of calls of \<open>rpc\<close> made before.
\<close>

record env =
  builtin :: builtins
  rpc_response :: "nat \<Rightarrow> rpc_call \<Rightarrow> js_error + string"
  parseSelection_result :: "nat \<Rightarrow> js_error + string \<times> string"
  readTextFile_result :: "nat \<Rightarrow> File \<Rightarrow> js_error + string"
  pdfText_result :: "nat \<Rightarrow> File \<Rightarrow> js_error + string"
  readFileAsBase64_result :: "nat \<Rightarrow> File \<Rightarrow> js_error + string"

datatype item_type = Page | Selection | FileItem | Youtube | Note

datatype upload_status = Pending | Processing | Done | Error

record UploadItem =
  item_id :: string
  item_type :: item_type
  item_title :: string
  item_content :: "string option"
  item_url :: "string option"
  item_file :: "File option"
  item_status :: upload_status
  item_progress :: "rat option"
  item_error :: "string option"
  item_notebookId :: "string option"
  item_chunks :: "int option"
  item_currentChunk :: "int option"

text \<open>
  The state that the service and the queue change: the store (\<open>uploadQueue\<close>,
  \<open>selectedNotebookId\<close>), the flag of the queue, and two logs, of the calls of \<open>rpc\<close> and of
  the calls of \<open>console.warn\<close>.
\<close>

record world =
  uploadQueue :: "UploadItem list"
  selectedNotebookId :: "string option"
  isProcessing :: bool
  rpcLog :: "rpc_call list"
  warnings :: "string list"

definition rpc :: "env \<Rightarrow> string \<Rightarrow> jsval \<Rightarrow> string \<Rightarrow> world \<Rightarrow> (js_error + string) \<times> world" where
  \<comment> \<open>\<open>NotebookLMService.rpc\<close> as its caller sees it: the call is logged and the environment
      gives the response text or the error\<close>
  "rpc E rid ps path w =
     (let call = \<lparr>rpcId = rid, params = ps, sourcePath = path\<rparr>
      in (rpc_response E (length (rpcLog w)) call, w\<lparr>rpcLog := rpcLog w @ [call]\<rparr>))"

definition warn :: "string \<Rightarrow> world \<Rightarrow> world" where
  "warn msg w = w\<lparr>warnings := warnings w @ [msg]\<rparr>"

definition errorMarkerAt :: "string \<Rightarrow> string option" where
  \<comment> \<open>the regular expression \<open>\["e",4,null,null,(\d+)\]\<close> matched at the head of \<open>s\<close>: its
      group\<close>
  \<open>errorMarkerAt s =
     (if startsWith s ''["e",4,null,null,'' then
        (let rest = drop 17 s
         in if takeWhile isDigit rest \<noteq> [] \<and> startsWith (dropWhile isDigit rest) '']''
            then Some (takeWhile isDigit rest) else None)
      else None)\<close>

fun matchErrorMarker :: "string \<Rightarrow> string option" where
  \<comment> \<open>\<open>response.match(...)\<close>: the group of the leftmost match\<close>
  "matchErrorMarker [] = None"
| "matchErrorMarker (c # cs) =
     (case errorMarkerAt (c # cs) of
        Some code \<Rightarrow> Some code
      | None \<Rightarrow> matchErrorMarker cs)"

definition normalErrorCodes :: "string list" where
  "normalErrorCodes =
     [''139'', ''140'', ''141'', ''412'', ''466'', ''496'', ''497'', ''536'', ''537'', ''552'',
      ''553'']"

definition normalErrorCodesText :: "string list" where
  \<comment> \<open>the list of \<open>addTextSource\<close>\<close>
  "normalErrorCodesText =
     [''139'', ''140'', ''141'', ''412'', ''466'', ''536'', ''537'', ''552'', ''553'']"

datatype content_type = TextContent | UrlContent | FileContent

record SourceContent =
  c_type :: content_type
  c_title :: string
  c_content :: "string option"
  c_url :: "string option"
  c_fileName :: "string option"

definition optStr :: "string option \<Rightarrow> jsval" where
  \<comment> \<open>an optional string inside an array that \<open>JSON.stringify\<close> writes\<close>
  "optStr x = (case x of Some s \<Rightarrow> Str s | None \<Rightarrow> Null)"

definition orElse :: "string option \<Rightarrow> string \<Rightarrow> string" where
  \<comment> \<open>\<open>x || d\<close> on an optional string\<close>
  "orElse x d = (case x of Some s \<Rightarrow> if s \<noteq> [] then s else d | None \<Rightarrow> d)"

definition textSourceRow :: "string \<Rightarrow> string \<Rightarrow> jsval" where
  \<comment> \<open>\<open>[null, [title, text], null, 2, null, null, null, null, null, null, 1]\<close>\<close>
  "textSourceRow title txt =
     Arr [Null, Arr [Str title, Str txt], Null, Num 2, Null, Null, Null, Null, Null, Null, Num 1]"

definition addFileSource :: "env \<Rightarrow> string \<Rightarrow> string \<Rightarrow> world \<Rightarrow> (js_error + unit) \<times> world" where
  "addFileSource E notebookId fileName w =
     (case rpc E ''o4cbdc''
             (Arr [Arr [Arr [Str fileName, Num 13]], Str notebookId, Arr [Num 2],
                   Arr [Num 1, Null, Null, Null, Null, Null, Null, Null, Null, Null, Arr [Num 1]]])
             (''/notebook/'' @ notebookId) w of
        (Inl e, w') \<Rightarrow> (Inl e, w')
      | (Inr response, w') \<Rightarrow> (Inr (), w'))"

definition checkAddSourceResponse :: "string \<Rightarrow> world \<Rightarrow> (js_error + unit) \<times> world" where
  \<comment> \<open>the check of the response in \<open>addSource\<close>\<close>
  \<open>checkAddSourceResponse response w =
     (if includesStr response ''["e",4'' then
        (case matchErrorMarker response of
           Some errorCode \<Rightarrow>
             if errorCode \<notin> set normalErrorCodes then
               (Inl (JsError (''RPC returned error code: '' @ errorCode)),
                warn (''Unexpected error code in RPC response: '' @ errorCode) w)
             else (Inr (), w)
         | None \<Rightarrow> (Inr (), w))
      else (Inr (), w))\<close>

definition addSource :: "env \<Rightarrow> string \<Rightarrow> SourceContent \<Rightarrow> world \<Rightarrow> (js_error + unit) \<times> world" where
  "addSource E notebookId content w =
     (case c_type content of
        FileContent \<Rightarrow>
          addFileSource E notebookId (orElse (c_fileName content) (c_title content)) w
      | other \<Rightarrow>
          (case (if c_type content = TextContent then
                   (let textContent = orElse (c_content content) [];
                        textTitle = (if c_title content \<noteq> [] then c_title content else ''Untitled'')
                    in if trim textContent = [] then Inl (JsError ''Text content cannot be empty'')
                       else Inr (Arr [textSourceRow textTitle textContent]))
                 else if includesStr (orElse (c_url content) []) ''youtube.com'' \<or>
                         includesStr (orElse (c_url content) []) ''youtu.be''
                 then Inr (Arr [Arr [Null, Null, Null, Null, Null, Null, Null,
                                     Arr [optStr (c_url content)]]])
                 else Inr (Arr [Arr [Null, Null, Arr [optStr (c_url content)]]])) of
             Inl e \<Rightarrow> (Inl e, w)
           | Inr srcs \<Rightarrow>
               (case rpc E ''izAoDd'' (Arr [srcs, Str notebookId]) (''/notebook/'' @ notebookId) w of
                  (Inl e, w') \<Rightarrow> (Inl e, w')
                | (Inr response, w') \<Rightarrow> checkAddSourceResponse response w')))"

definition checkAddTextSourceResponse :: "string \<Rightarrow> world \<Rightarrow> world" where
  \<comment> \<open>the check of the response in \<open>addTextSource\<close>: it writes to the console only\<close>
  \<open>checkAddTextSourceResponse response w =
     (if includesStr response ''["e",4'' then
        (case matchErrorMarker response of
           Some errorCode \<Rightarrow>
             if errorCode \<notin> set normalErrorCodesText then
               warn (''Unexpected error code in addTextSource: '' @ errorCode) w
             else w
         | None \<Rightarrow> w)
      else w)\<close>

definition addTextSource :: "env \<Rightarrow> string \<Rightarrow> string \<Rightarrow> string \<Rightarrow> world \<Rightarrow> (js_error + unit) \<times> world" where
  "addTextSource E notebookId txt title w =
     (case rpc E ''izAoDd'' (Arr [Arr [textSourceRow title txt], Str notebookId])
             (''/notebook/'' @ notebookId) w of
        (Inl e, w') \<Rightarrow> (Inl e, w')
      | (Inr response, w') \<Rightarrow> (Inr (), checkAddTextSourceResponse response w'))"

definition getNotebook :: "env \<Rightarrow> string \<Rightarrow> world \<Rightarrow> (js_error + NotebookDetails) \<times> world" where
  "getNotebook E notebookId w =
     (case rpc E ''rLM1Ne'' (Arr [Str notebookId, Null, Arr [Num 2], Null, Num 1])
             (''/notebook/'' @ notebookId) w of
        (Inl e, w') \<Rightarrow> (Inl e, w')
      | (Inr response, w') \<Rightarrow> (Inr (parseNotebookDetails (builtin E) response), w'))"

section \<open>The upload queue\<close>

definition CHUNK_SIZE :: int where
  "CHUNK_SIZE = 225000"

definition DEFAULT_OVERLAP :: int where
  \<comment> \<open>the default of the second argument of the constructor of \<open>TextSplitter\<close>\<close>
  "DEFAULT_OVERLAP = 1000"

definition updateQueueItem :: "string \<Rightarrow> (UploadItem \<Rightarrow> UploadItem) \<Rightarrow> world \<Rightarrow> world" where
  "updateQueueItem ident updates w =
     w\<lparr>uploadQueue :=
         map (\<lambda>item. if item_id item = ident then updates item else item) (uploadQueue w)\<rparr>"

fun beforeFirst :: "string \<Rightarrow> string \<Rightarrow> string" where
  \<comment> \<open>\<open>s.split(sep)[0]\<close>, for a separator that is not empty\<close>
  "beforeFirst sep [] = []"
| "beforeFirst sep (c # cs) = (if startsWith (c # cs) sep then [] else c # beforeFirst sep cs)"

definition normalizeUrl :: "builtins \<Rightarrow> string \<Rightarrow> string" where
  "normalizeUrl B u =
     (case URL_parse B u of
        None \<Rightarrow> u
      | Some urlObj \<Rightarrow>
          (let generic =
                 URL_toString B
                   (urlObj\<lparr>searchParams :=
                      filter (\<lambda>(k, v). k \<notin> set [''utm_source'', ''utm_medium'', ''utm_campaign'',
                                                   ''ref'', ''fbclid'', ''gclid''])
                        (searchParams urlObj)\<rparr>)
           in if includesStr (hostname urlObj) ''youtube.com'' \<or>
                 includesStr (hostname urlObj) ''youtu.be'' then
                (if includesStr (pathname urlObj) ''/@'' \<or>
                    includesStr (pathname urlObj) ''/channel/'' \<or>
                    includesStr (pathname urlObj) ''/c/''
                 then URL_toString B (urlObj\<lparr>searchParams := []\<rparr>)
                 else
                   (let v = orElse (map_of (searchParams urlObj) ''v'') [];
                        videoId =
                          (if v = [] \<and> includesStr (hostname urlObj) ''youtu.be''
                           then last (splitChar (CHR ''/'') (pathname urlObj)) else v)
                    in if videoId \<noteq> [] \<and> length videoId \<ge> 10
                       then ''https://www.youtube.com/watch?v='' @ substring videoId 0 11
                       else generic))
              else generic))"

definition titleMatch :: "Source list \<Rightarrow> string \<Rightarrow> bool" where
  \<comment> \<open>the first \<open>some\<close> of \<open>checkDuplicate\<close>: an exact match, or a match after lower-casing
      and trimming\<close>
  "titleMatch srcs title =
     list_ex (\<lambda>source. source_title source = title \<or>
                trim (toLowerCase (source_title source)) = trim (toLowerCase title)) srcs"

definition isDuplicateIn :: "builtins \<Rightarrow> NotebookDetails \<Rightarrow> UploadItem \<Rightarrow> bool" where
  \<comment> \<open>the body of \<open>checkDuplicate\<close> after the notebook has been fetched\<close>
  "isDuplicateIn B notebook item =
     (if item_title item \<noteq> [] \<and> titleMatch (sources notebook) (item_title item) then True
      else if item_type item = Youtube \<or> item_type item = Page then
        (case item_url item of
           None \<Rightarrow> False
         | Some url \<Rightarrow>
             if url = [] then False
             else list_ex (\<lambda>source. case source_url source of
                                      None \<Rightarrow> False
                                    | Some sourceUrl \<Rightarrow>
                                        sourceUrl \<noteq> [] \<and>
                                        normalizeUrl B sourceUrl = normalizeUrl B url)
                    (sources notebook))
      else if item_type item = Note \<or> item_type item = FileItem \<or> item_type item = Selection then
        (if item_title item = [] then False
         else list_ex (\<lambda>source. source_title source = item_title item \<or>
                         (includesStr (item_title item) ''(Part'' \<and>
                          startsWith (source_title source)
                            (trim (beforeFirst ''(Part'' (item_title item)))))
                (sources notebook))
      else False)"

definition checkDuplicate :: "env \<Rightarrow> string \<Rightarrow> UploadItem \<Rightarrow> world \<Rightarrow> bool \<times> world" where
  \<comment> \<open>when the notebook cannot be fetched the upload is allowed\<close>
  "checkDuplicate E notebookId item w =
     (case getNotebook E notebookId w of
        (Inl e, w') \<Rightarrow> (False, w')
      | (Inr notebook, w') \<Rightarrow> (isDuplicateIn (builtin E) notebook item, w'))"

definition waitForTextSource :: "env \<Rightarrow> string \<Rightarrow> string \<Rightarrow> world \<Rightarrow> world" where
  \<comment> \<open>fetches the notebook once more and writes to the console whether the title is there\<close>
  "waitForTextSource E notebookId expectedTitle w =
     (case getNotebook E notebookId w of
        (Inl e, w') \<Rightarrow> warn (''Could not verify text source: '' @ message e) w'
      | (Inr notebook, w') \<Rightarrow> w')"

definition addTextAndWait :: "env \<Rightarrow> string \<Rightarrow> string \<Rightarrow> string \<Rightarrow> world \<Rightarrow> (js_error + unit) \<times> world" where
  \<comment> \<open>\<open>addTextSource\<close> followed by \<open>waitForTextSource\<close> for the same title\<close>
  "addTextAndWait E notebookId txt title w =
     (case addTextSource E notebookId txt title w of
        (Inl e, w') \<Rightarrow> (Inl e, w')
      | (Inr u, w') \<Rightarrow> (Inr (), waitForTextSource E notebookId title w'))"

definition partTitle :: "string \<Rightarrow> int \<Rightarrow> int \<Rightarrow> string" where
  \<comment> \<open>the template literal \<open>${title} (Part ${i}/${n})\<close>\<close>
  "partTitle title i n = title @ '' (Part '' @ showInt i @ ''/'' @ showInt n @ '')''"

fun uploadChunks ::
  "env \<Rightarrow> bool \<Rightarrow> string \<Rightarrow> UploadItem \<Rightarrow> int \<Rightarrow> int \<Rightarrow> string list \<Rightarrow> world \<Rightarrow> (js_error + unit) \<times> world" where
  \<comment> \<open>the loop over the chunks, from index \<open>i\<close>, of \<open>nChunks\<close> chunks in all; \<open>waits\<close> says
      whether the loop calls \<open>waitForTextSource\<close> between two chunks\<close>
  "uploadChunks E waits notebookId item nChunks i [] w = (Inr (), w)"
| "uploadChunks E waits notebookId item nChunks i (chunkText # rest) w =
     (case addTextSource E notebookId chunkText (partTitle (item_title item) (i + 1) nChunks) w of
        (Inl e, w1) \<Rightarrow> (Inl e, w1)
      | (Inr u, w1) \<Rightarrow>
          (let w2 = updateQueueItem (item_id item)
                      (\<lambda>it. it\<lparr>item_currentChunk := Some (i + 1),
                                item_progress := Some (of_int (i + 1) / of_int nChunks * 100)\<rparr>) w1;
               w3 = (if waits \<and> i < nChunks - 1
                     then waitForTextSource E notebookId
                            (partTitle (item_title item) (i + 1) nChunks) w2
                     else w2)
           in uploadChunks E waits notebookId item nChunks (i + 1) rest w3))"

definition uploadAllChunks ::
  "env \<Rightarrow> bool \<Rightarrow> string \<Rightarrow> UploadItem \<Rightarrow> string list \<Rightarrow> world \<Rightarrow> (js_error + unit) \<times> world" where
  \<comment> \<open>the upload of the chunks of one item: the store gets the number of chunks, the loop
      runs, and where the loop waits between chunks the last chunk is waited for too\<close>
  "uploadAllChunks E waits notebookId item chunkTexts w =
     (let nChunks = int (length chunkTexts);
          w0 = updateQueueItem (item_id item)
                 (\<lambda>it. it\<lparr>item_chunks := Some nChunks, item_currentChunk := Some 0\<rparr>) w
      in case uploadChunks E waits notebookId item nChunks 0 chunkTexts w0 of
           (Inl e, w1) \<Rightarrow> (Inl e, w1)
         | (Inr u, w1) \<Rightarrow>
             (Inr (), if waits
                      then waitForTextSource E notebookId
                             (partTitle (item_title item) nChunks nChunks) w1
                      else w1))"

record ProcessedFile =
  pf_content :: string
  pf_needsChunking :: bool
  pf_chunks :: "(string \<times> int) list option"

definition chunkIfNeeded :: "string \<Rightarrow> ProcessedFile option" where
  \<comment> \<open>the text of a file with its chunks when it is longer than \<open>CHUNK_SIZE\<close>; \<open>None\<close> when
      the splitter does not return\<close>
  "chunkIfNeeded txt =
     (if int (length txt) > CHUNK_SIZE then
        map_option
          (\<lambda>chunks. \<lparr>pf_content = txt, pf_needsChunking = True,
                      pf_chunks = Some (map (\<lambda>c. (chunk_text c, chunk_index c)) chunks)\<rparr>)
          (splitText CHUNK_SIZE DEFAULT_OVERLAP txt)
      else Some \<lparr>pf_content = txt, pf_needsChunking = False, pf_chunks = None\<rparr>)"

definition fileExtension :: "string \<Rightarrow> string" where
  \<comment> \<open>\<open>name.split('.').pop().toLowerCase()\<close>\<close>
  "fileExtension name = toLowerCase (last (splitChar (CHR ''.'') name))"

definition processFile :: "env \<Rightarrow> nat \<Rightarrow> File \<Rightarrow> (js_error + ProcessedFile) option" where
  "processFile E n file =
     (let extension = fileExtension (file_name file)
      in if extension \<in> set [''txt'', ''md'', ''markdown''] then
           (case readTextFile_result E n file of
              Inl e \<Rightarrow> Some (Inl e)
            | Inr txt \<Rightarrow> map_option Inr (chunkIfNeeded txt))
         else if extension = ''pdf'' then
           (case pdfText_result E n file of
              Inl e \<Rightarrow> Some (Inl (JsError (''Failed to extract text from PDF: '' @ message e)))
            | Inr fullText \<Rightarrow> map_option Inr (chunkIfNeeded fullText))
         else if extension = ''docx'' then
           (case readFileAsBase64_result E n file of
              Inl e \<Rightarrow> Some (Inl e)
            | Inr base64 \<Rightarrow>
                Some (Inr \<lparr>pf_content = base64, pf_needsChunking = False, pf_chunks = None\<rparr>))
         else Some (Inl (JsError (''Unsupported file type: '' @ extension))))"

definition matchRpcErrorCodeAt :: "string \<Rightarrow> string option" where
  \<comment> \<open>the regular expression \<open>RPC returned error code: (\d+)\<close> matched at the head of \<open>s\<close>\<close>
  "matchRpcErrorCodeAt s =
     (if startsWith s ''RPC returned error code: '' \<and> takeWhile isDigit (drop 25 s) \<noteq> []
      then Some (takeWhile isDigit (drop 25 s)) else None)"

fun matchRpcErrorCode :: "string \<Rightarrow> string option" where
  "matchRpcErrorCode [] = None"
| "matchRpcErrorCode (c # cs) =
     (case matchRpcErrorCodeAt (c # cs) of
        Some code \<Rightarrow> Some code
      | None \<Rightarrow> matchRpcErrorCode cs)"

definition isNormalRpcError :: "js_error \<Rightarrow> bool" where
  \<comment> \<open>the test of both \<open>catch\<close> blocks of \<open>processItem\<close>: the message carries an error code
      of the list\<close>
  "isNormalRpcError e =
     (includesStr (message e) ''RPC returned error code:'' \<and>
      (case matchRpcErrorCode (message e) of
         Some errorCode \<Rightarrow> errorCode \<in> set normalErrorCodes
       | None \<Rightarrow> False))"

definition urlContent :: "UploadItem \<Rightarrow> SourceContent" where
  \<comment> \<open>\<open>{ type: 'url', title: item.title, url: item.url }\<close>\<close>
  "urlContent item =
     \<lparr>c_type = UrlContent, c_title = item_title item, c_content = None, c_url = item_url item,
      c_fileName = None\<rparr>"

definition processText ::
  "env \<Rightarrow> bool \<Rightarrow> string \<Rightarrow> UploadItem \<Rightarrow> string \<Rightarrow> world \<Rightarrow> ((js_error + unit) \<times> world) option" where
  \<comment> \<open>a text of a page or of a note: split when it is longer than \<open>CHUNK_SIZE\<close>\<close>
  "processText E waits notebookId item txt w =
     (if int (length txt) > CHUNK_SIZE then
        (case splitText CHUNK_SIZE DEFAULT_OVERLAP txt of
           None \<Rightarrow> None
         | Some chunks \<Rightarrow> Some (uploadAllChunks E waits notebookId item (map chunk_text chunks) w))
      else Some (addTextAndWait E notebookId txt (item_title item) w))"

definition processByType ::
  "env \<Rightarrow> string \<Rightarrow> UploadItem \<Rightarrow> world \<Rightarrow> ((js_error + unit) \<times> world) option" where
  \<comment> \<open>the \<open>switch\<close> on the type of the item\<close>
  "processByType E notebookId item w =
     (case item_type item of
        Page \<Rightarrow>
          (if (case item_url item of
                 Some u \<Rightarrow> u \<noteq> [] \<and> \<not> startsWith u ''chrome://'' \<and>
                           \<not> startsWith u ''chrome-extension://''
               | None \<Rightarrow> False)
           then Some (addSource E notebookId (urlContent item) w)
           else if trim (orElse (item_content item) []) \<noteq> []
           then processText E False notebookId item (orElse (item_content item) []) w
           else Some (Inl (JsError ''Page URL or content not found''), w))
      | Selection \<Rightarrow>
          (case parseSelection_result E (length (rpcLog w)) of
             Inl e \<Rightarrow> Some (Inl e, w)
           | Inr (txt, title) \<Rightarrow> Some (addTextAndWait E notebookId txt title w))
      | Youtube \<Rightarrow>
          (case addSource E notebookId (urlContent item) w of
             (Inl e, w') \<Rightarrow> if isNormalRpcError e then Some (Inr (), w') else Some (Inl e, w')
           | (Inr u, w') \<Rightarrow> Some (Inr (), w'))
      | FileItem \<Rightarrow>
          (case item_file item of
             None \<Rightarrow> Some (Inl (JsError ''File not found''), w)
           | Some file \<Rightarrow>
               if fileExtension (file_name file)
                    \<in> set [''png'', ''jpg'', ''jpeg'', ''gif'', ''webp'', ''svg'']
               then Some (addFileSource E notebookId (file_name file) w)
               else
                 (case processFile E (length (rpcLog w)) file of
                    None \<Rightarrow> None
                  | Some (Inl e) \<Rightarrow> Some (Inl e, w)
                  | Some (Inr processed) \<Rightarrow>
                      (case pf_chunks processed of
                         Some chunks \<Rightarrow>
                           if pf_needsChunking processed
                           then Some (uploadAllChunks E True notebookId item (map fst chunks) w)
                           else Some (addTextAndWait E notebookId (pf_content processed)
                                        (item_title item) w)
                       | None \<Rightarrow>
                           Some (addTextAndWait E notebookId (pf_content processed)
                                   (item_title item) w))))
      | Note \<Rightarrow> processText E True notebookId item (orElse (item_content item) []) w)"

definition markDone :: "UploadItem \<Rightarrow> world \<Rightarrow> world" where
  "markDone item w =
     updateQueueItem (item_id item) (\<lambda>it. it\<lparr>item_status := Done, item_progress := Some 100\<rparr>) w"

definition resolveNotebookId :: "UploadItem \<Rightarrow> world \<Rightarrow> string option" where
  \<comment> \<open>\<open>item.notebookId || useStore.getState().selectedNotebookId\<close>, \<open>None\<close> when it is falsy\<close>
  "resolveNotebookId item w =
     (let n = orElse (item_notebookId item) (orElse (selectedNotebookId w) [])
      in if n = [] then None else Some n)"

definition processItem :: "env \<Rightarrow> UploadItem \<Rightarrow> world \<Rightarrow> ((js_error + unit) \<times> world) option" where
  \<comment> \<open>\<open>None\<close> when the call does not return\<close>
  "processItem E item w =
     (case resolveNotebookId item w of
        None \<Rightarrow> Some (Inl (JsError ''No notebook selected''), w)
      | Some notebookId \<Rightarrow>
          (case checkDuplicate E notebookId item w of
             (True, w1) \<Rightarrow>
               Some (Inr (),
                     updateQueueItem (item_id item)
                       (\<lambda>it. it\<lparr>item_status := Error, item_progress := Some 0,
                                 item_error := Some ''Source already exists in notebook''\<rparr>) w1)
           | (False, w1) \<Rightarrow>
               (case processByType E notebookId item
                       (updateQueueItem (item_id item)
                          (\<lambda>it. it\<lparr>item_status := Processing, item_progress := Some 0\<rparr>) w1) of
                  None \<Rightarrow> None
                | Some (Inr u, w2) \<Rightarrow> Some (Inr (), markDone item w2)
                | Some (Inl e, w2) \<Rightarrow>
                    if isNormalRpcError e then Some (Inr (), markDone item w2)
                    else Some (Inl e, w2))))"



section \<open>DOM extraction\<close>

record Tab =
  tab_id :: "nat option"
  tab_url :: "string option"

text \<open>
  The browser gives the outcome of every call of its API, by the number \<open>n\<close> of calls made
  before: a promise resolves (\<open>Inr\<close>) or rejects (\<open>Inl\<close>). An injected function runs in the
  page, so \<open>executeScript\<close> gives the results it returns, one for each frame. The wall clock
  decides how many rounds a polling loop runs before its deadline: \<open>pollRounds\<close> gives that
  number for the loop that starts after \<open>n\<close> calls.
\<close>

record chrome =
  tabs_query :: "nat \<Rightarrow> js_error + Tab list"
  tabs_create :: "nat \<Rightarrow> js_error + Tab"
  tabs_update :: "nat \<Rightarrow> js_error + unit"
  tabs_remove :: "nat \<Rightarrow> js_error + unit"
  executeScript :: "nat \<Rightarrow> nat \<Rightarrow> js_error + jsval list"
  pollRounds :: "nat \<Rightarrow> nat"





















section \<open>Token refresh\<close>

record Tokens =
  bl :: string
  at :: string
  authuser :: int

text \<open>
  A call of \<open>getTokens\<close> runs in pieces, one between two \<open>await\<close>s, and the pieces of several
  calls interleave. A caller is where its call is suspended: in the 100 ms sleep, in the
  fetch of the page, in the read of the body of the response, or finished.
\<close>

datatype caller = Sleeping | Fetching | Reading | Returned Tokens | Thrown

record client =
  tokens :: "Tokens option"
  isRefreshingTokens :: bool
  callers :: "caller list"

definition initialClient :: client where
  "initialClient = \<lparr>tokens = None, isRefreshingTokens = False, callers = []\<rparr>"

text \<open>
  The steps: \<open>rpc\<close> finds no tokens and calls \<open>getTokens\<close>, which sleeps when it finds the
  flag set (\<open>enter_busy\<close>) and otherwise sets the flag and starts the fetch (\<open>enter_free\<close>);
  a sleep ends and the caller returns the tokens that are there (\<open>wake_hit\<close>), or there
  are none and the call goes on, sets the flag and fetches (\<open>wake_miss\<close>); a fetch ends
  with a response (\<open>fetch_ok\<close>) or fails (\<open>fetch_fail\<close>); the body holds both tokens
  (\<open>read_ok\<close>) or not (\<open>read_fail\<close>). The \<open>finally\<close> block clears the flag.
\<close>

inductive step :: "client \<Rightarrow> client \<Rightarrow> bool" where
  enter_busy:
    "tokens s = None \<Longrightarrow> isRefreshingTokens s \<Longrightarrow>
     step s (s\<lparr>callers := callers s @ [Sleeping]\<rparr>)"
| enter_free:
    "tokens s = None \<Longrightarrow> \<not> isRefreshingTokens s \<Longrightarrow>
     step s (s\<lparr>isRefreshingTokens := True, callers := callers s @ [Fetching]\<rparr>)"
| wake_hit:
    "i < length (callers s) \<Longrightarrow> callers s ! i = Sleeping \<Longrightarrow> tokens s = Some t \<Longrightarrow>
     step s (s\<lparr>callers := (callers s)[i := Returned t]\<rparr>)"
| wake_miss:
    "i < length (callers s) \<Longrightarrow> callers s ! i = Sleeping \<Longrightarrow> tokens s = None \<Longrightarrow>
     step s (s\<lparr>isRefreshingTokens := True, callers := (callers s)[i := Fetching]\<rparr>)"
| fetch_ok:
    "i < length (callers s) \<Longrightarrow> callers s ! i = Fetching \<Longrightarrow>
     step s (s\<lparr>callers := (callers s)[i := Reading]\<rparr>)"
| fetch_fail:
    "i < length (callers s) \<Longrightarrow> callers s ! i = Fetching \<Longrightarrow>
     step s (s\<lparr>isRefreshingTokens := False, callers := (callers s)[i := Thrown]\<rparr>)"
| read_ok:
    "i < length (callers s) \<Longrightarrow> callers s ! i = Reading \<Longrightarrow>
     step s (s\<lparr>tokens := Some t, isRefreshingTokens := False,
               callers := (callers s)[i := Returned t]\<rparr>)"
| read_fail:
    "i < length (callers s) \<Longrightarrow> callers s ! i = Reading \<Longrightarrow>
     step s (s\<lparr>isRefreshingTokens := False, callers := (callers s)[i := Thrown]\<rparr>)"

inductive reachable :: "client \<Rightarrow> bool" where
  reach_init: "reachable initialClient"
| reach_step: "reachable s \<Longrightarrow> step s s' \<Longrightarrow> reachable s'"

definition fetchesInFlight :: "client \<Rightarrow> nat" where
  "fetchesInFlight s = length (filter (\<lambda>c. c = Fetching) (callers s))"

section \<open>Notions used to state the properties of the splitter\<close>

definition searchWindow :: "int \<Rightarrow> string \<Rightarrow> int \<Rightarrow> string" where
  \<comment> \<open>the text that the iteration starting at \<open>start\<close> searches for a break: 200 characters
      on each side of \<open>start + chunkSize\<close>, inside the text and not before \<open>start\<close>\<close>
  "searchWindow chunkSize text start =
     substring text (max start (start + chunkSize - 200))
       (min (int (length text)) (start + chunkSize + 200))"

definition cutAtBreak :: "string \<Rightarrow> int \<Rightarrow> bool" where
  \<comment> \<open>position \<open>e\<close> does not split a word: it follows a paragraph break or a space, or it
      lies between a full stop and a space\<close>
  "cutAtBreak text e =
     (substring text (e - 2) e = ''\<newline>\<newline>'' \<or> substring text (e - 1) (e + 1) = ''. '' \<or>
      substring text (e - 1) e = '' '')"

definition chunkOK :: "int \<Rightarrow> string \<Rightarrow> Chunk \<Rightarrow> bool" where
  \<comment> \<open>what is claimed of one chunk: its text is that of its span, the span is not empty
      and lies in the text, the length is at most \<open>chunkSize + 400\<close>, and the end does not
      split a word when the window searched has a space\<close>
  "chunkOK chunkSize text c =
     (chunk_text c = substring text (chunk_start c) (chunk_end c) \<and>
      0 \<le> chunk_start c \<and> chunk_start c < chunk_end c \<and> chunk_end c \<le> int (length text) \<and>
      int (length (chunk_text c)) \<le> chunkSize + 400 \<and>
      (chunk_start c + chunkSize < int (length text) \<and>
       CHR '' '' \<in> set (searchWindow chunkSize text (chunk_start c))
         \<longrightarrow> cutAtBreak text (chunk_end c)))"

fun covered :: "int \<Rightarrow> Chunk list \<Rightarrow> int" where
  \<comment> \<open>the position up to which \<open>pos\<close> and the spans of the chunks reach\<close>
  "covered pos [] = pos"
| "covered pos (c # cs) = covered (max pos (chunk_end c)) cs"

fun stitch :: "int \<Rightarrow> Chunk list \<Rightarrow> string" where
  \<comment> \<open>the texts of the chunks one after the other, each without the part of its span that
      the chunks before it have covered (the overlap)\<close>
  "stitch pos [] = []"
| "stitch pos (c # cs) =
     drop (nat (pos - chunk_start c)) (chunk_text c) @ stitch (max pos (chunk_end c)) cs"

definition splitInv :: "int \<Rightarrow> string \<Rightarrow> Chunk list \<Rightarrow> int \<Rightarrow> bool" where
  \<comment> \<open>the invariant of the loop of \<open>splitText\<close>: the chunks pushed so far are as claimed,
      they cover every position below \<open>start\<close>, and stitched they give the text up to
      where they reach\<close>
  "splitInv chunkSize text chunks start =
     (0 \<le> start \<and> (\<forall>c\<in>set chunks. chunkOK chunkSize text c) \<and>
      (\<forall>p. 0 \<le> p \<and> p < start \<longrightarrow>
           (\<exists>c\<in>set chunks. chunk_start c \<le> p \<and> p < chunk_end c)) \<and>
      start \<le> covered 0 chunks \<and> covered 0 chunks \<le> int (length text) \<and>
      stitch 0 chunks = take (nat (covered 0 chunks)) text)"

section \<open>Notions used to state the properties of the export\<close>

definition cleanCard :: "Flashcard \<Rightarrow> bool" where
  \<comment> \<open>a flashcard with no newline in its front, its back and its tags, and no tab in its
      tags: the characters that \<open>flashcardsToAnki\<close> does not replace\<close>
  "cleanCard fc =
     (CHR ''\<newline>'' \<notin> set (fc_front fc) \<and> CHR ''\<newline>'' \<notin> set (fc_back fc) \<and>
      list_all (\<lambda>t. TAB \<notin> set t \<and> CHR ''\<newline>'' \<notin> set t)
        (case fc_tags fc of Some ts \<Rightarrow> ts | None \<Rightarrow> []))"

section \<open>Sample inputs\<close>

definition sampleBuiltins :: builtins where
  "sampleBuiltins =
     \<lparr>JSON_parse =
        (\<lambda>v. if v = Str ''[[wrb.fr]]'' then Some (Arr [Arr [Null, Null, Str ''inner'']])
             else if v = Str ''inner'' then
               Some (Arr [Arr [Str ''My notebook'',
                               Arr [Arr [Arr [Str ''id1''], Str ''Title one'',
                                         Arr [Null, Null, Null, Null, Num 9, Null, Null,
                                              Arr [Str ''https://youtu.be/x'']],
                                         Arr [Null, Num 1]],
                                    Arr [Arr [Str ''id2'']]],
                               Str ''nbid'']])
             else None),
      URL_parse = (\<lambda>u. None), URL_toString = (\<lambda>u. []), decodeURIComponent = Some\<rparr>"

definition sampleResponse :: string where
  "sampleResponse = '')]}\<newline>\<newline>[[wrb.fr]]\<newline>''"



section \<open>Notions used to state the properties of the queue\<close>

definition frame :: "string \<Rightarrow> world \<Rightarrow> world \<Rightarrow> bool" where
  \<comment> \<open>from \<open>w\<close> to \<open>w'\<close> the queue keeps its items, in their order, and changes at most
      the items with the given id\<close>
  "frame ident w w' =
     (map item_id (uploadQueue w') = map item_id (uploadQueue w) \<and>
      (\<forall>k < length (uploadQueue w).
          item_id (uploadQueue w ! k) \<noteq> ident \<longrightarrow> uploadQueue w' ! k = uploadQueue w ! k))"


section \<open>Sample inputs of the queue\<close>

definition sampleItem :: "string \<Rightarrow> string \<Rightarrow> UploadItem" where
  "sampleItem ident title =
     \<lparr>item_id = ident, item_type = Note, item_title = title, item_content = Some ''hello'',
      item_url = None, item_file = None, item_status = Pending, item_progress = None,
      item_error = None, item_notebookId = Some ''nb'', item_chunks = None,
      item_currentChunk = None\<rparr>"

definition sampleWorld :: "UploadItem list \<Rightarrow> world" where
  "sampleWorld items =
     \<lparr>uploadQueue = items, selectedNotebookId = None, isProcessing = False, rpcLog = [],
      warnings = []\<rparr>"

definition sampleEnv :: "builtins \<Rightarrow> (nat \<Rightarrow> rpc_call \<Rightarrow> js_error + string) \<Rightarrow> env" where
  "sampleEnv B server =
     \<lparr>builtin = B, rpc_response = server,
      parseSelection_result = (\<lambda>n. Inl (JsError ''No active tab found'')),
      readTextFile_result = (\<lambda>n f. Inl (JsError ''not readable'')),
      pdfText_result = (\<lambda>n f. Inl (JsError ''not readable'')),
      readFileAsBase64_result = (\<lambda>n f. Inl (JsError ''not readable''))\<rparr>"


definition notebookServer :: "nat \<Rightarrow> rpc_call \<Rightarrow> js_error + string" where
  "notebookServer n call = (if rpcId call = ''rLM1Ne'' then Inr sampleResponse else Inr [])"

definition blankTitleBuiltins :: builtins where
  "blankTitleBuiltins =
     sampleBuiltins\<lparr>JSON_parse :=
       (\<lambda>v. if v = Str ''[[wrb.fr]]'' then Some (Arr [Arr [Null, Null, Str ''inner'']])
            else if v = Str ''inner'' then
              Some (Arr [Arr [Str ''My notebook'', Arr [Arr [Arr [Str ''id1''], Str '' '']],
                              Str ''nbid'']])
            else None)\<rparr>"

definition addSourceCalls :: "world \<Rightarrow> nat" where
  \<comment> \<open>the number of add-source calls (\<open>izAoDd\<close>) made so far\<close>
  "addSourceCalls w = length (filter (\<lambda>c. rpcId c = ''izAoDd'') (rpcLog w))"

definition acceptingServer :: "nat \<Rightarrow> rpc_call \<Rightarrow> js_error + string" where
  \<comment> \<open>every call gets an empty response: nothing fails and the notebook shows no source\<close>
  "acceptingServer n call = Inr []"

definition noteWith :: "string \<Rightarrow> UploadItem" where
  "noteWith content = (sampleItem ''a'' ''Big'')\<lparr>item_content := Some content\<rparr>"

section \<open>Strings: facts about \<open>substring\<close> and \<open>lastIndexOf\<close>\<close>

lemma substring_range:
  "0 \<le> a \<Longrightarrow> a \<le> b \<Longrightarrow> b \<le> int (length s) \<Longrightarrow>
   substring s a b = take (nat (b - a)) (drop (nat a) s)"
  by (simp add: substring_def Let_def min_def max_def)

lemma length_substring:
  "0 \<le> a \<Longrightarrow> a \<le> b \<Longrightarrow> b \<le> int (length s) \<Longrightarrow> int (length (substring s a b)) = b - a"
  by (simp add: substring_range)

lemma matchesAt_bound:
  "matchesAt s p i \<Longrightarrow> p \<noteq> [] \<Longrightarrow> i + length p \<le> length s"
proof -
  assume m: "matchesAt s p i" and ne: "p \<noteq> []"
  from m have "length (take (length p) (drop i s)) = length p"
    by (simp add: matchesAt_def startsWith_def)
  with ne show ?thesis by (cases "i \<le> length s") (auto simp: min_def split: if_splits)
qed

lemma lastIndexUpTo_cases:
  "lastIndexUpTo s p n = - 1 \<or>
   (0 \<le> lastIndexUpTo s p n \<and> lastIndexUpTo s p n \<le> int n \<and>
    matchesAt s p (nat (lastIndexUpTo s p n)))"
proof (induction n)
  case 0
  then show ?case by simp
next
  case (Suc n)
  have "nat (1 + int n) = Suc n" by simp
  with Suc show ?case by auto
qed

lemma lastIndexUpTo_found:
  "matchesAt s p i \<Longrightarrow> i \<le> n \<Longrightarrow> lastIndexUpTo s p n \<noteq> - 1"
proof (induction n)
  case 0
  then show ?case by simp
next
  case (Suc n)
  then show ?case by (cases "i = Suc n") auto
qed

lemma lastIndexOf_cases:
  assumes "p \<noteq> []"
  shows "lastIndexOf s p = - 1 \<or>
         (0 \<le> lastIndexOf s p \<and> lastIndexOf s p + int (length p) \<le> int (length s) \<and>
          matchesAt s p (nat (lastIndexOf s p)))"
proof -
  from lastIndexUpTo_cases [of s p "length s"]
  show ?thesis
  proof
    assume "lastIndexUpTo s p (length s) = - 1"
    then show ?thesis by (simp add: lastIndexOf_def)
  next
    assume h: "0 \<le> lastIndexUpTo s p (length s) \<and> lastIndexUpTo s p (length s) \<le> int (length s) \<and>
      matchesAt s p (nat (lastIndexUpTo s p (length s)))"
    then have "nat (lastIndexUpTo s p (length s)) + length p \<le> length s"
      using matchesAt_bound assms by blast
    with h show ?thesis by (simp add: lastIndexOf_def)
  qed
qed

lemma lastIndexOf_found:
  "matchesAt s p i \<Longrightarrow> p \<noteq> [] \<Longrightarrow> lastIndexOf s p \<noteq> - 1"
  unfolding lastIndexOf_def
  using lastIndexUpTo_found [of s p i "length s"] matchesAt_bound [of s p i] by simp

lemma space_matchesAt:
  "CHR '' '' \<in> set s \<Longrightarrow> \<exists>i. matchesAt s '' '' i"
proof -
  assume "CHR '' '' \<in> set s"
  then obtain i where i: "i < length s" "s ! i = CHR '' ''" by (auto simp: in_set_conv_nth)
  then have "take 1 (drop i s) = '' ''"
    by (simp add: take_Suc_conv_app_nth hd_drop_conv_nth take_Suc)
  then show ?thesis by (auto simp: matchesAt_def startsWith_def)
qed

section \<open>The splitter: one iteration\<close>

lemma matchesAt_substring:
  assumes m: "matchesAt (substring T a b) p i" and ne: "p \<noteq> []"
    and r: "0 \<le> a" "a \<le> b" "b \<le> int (length T)"
  shows "substring T (a + int i) (a + int i + int (length p)) = p \<and>
         a + int i + int (length p) \<le> b"
proof -
  have len: "int (length (substring T a b)) = b - a" using r by (rule length_substring)
  from matchesAt_bound [OF m ne] len have bnd: "int i + int (length p) \<le> b - a" by linarith
  have sub: "substring T a b = take (nat (b - a)) (drop (nat a) T)" using r by (rule substring_range)
  from m have "take (length p) (drop i (take (nat (b - a)) (drop (nat a) T))) = p"
    by (simp add: matchesAt_def startsWith_def sub)
  then have "take (length p) (take (nat (b - a) - i) (drop (i + nat a) T)) = p"
    by (simp add: drop_take)
  moreover have "min (length p) (nat (b - a) - i) = length p" using bnd by simp
  ultimately have t: "take (length p) (drop (i + nat a) T) = p" by simp
  have "substring T (a + int i) (a + int i + int (length p)) =
        take (nat (a + int i + int (length p) - (a + int i))) (drop (nat (a + int i)) T)"
    using r bnd by (intro substring_range) auto
  also have "\<dots> = take (length p) (drop (i + nat a) T)"
    using r by (simp add: nat_add_distrib add.commute)
  finally show ?thesis using t bnd by simp
qed

lemma chunkEnd_last:
  "\<not> start + S < int (length T) \<Longrightarrow> chunkEnd S T start = int (length T)"
  by (simp add: chunkEnd_def Let_def)

lemma chunkEnd_search:
  assumes "0 \<le> start" "0 \<le> S" "start + S < int (length T)"
  shows "(chunkEnd S T start = start + S \<and> CHR '' '' \<notin> set (searchWindow S T start)) \<or>
         (max start (start + S - 200) < chunkEnd S T start \<and>
          chunkEnd S T start \<le> min (int (length T)) (start + S + 200) \<and>
          cutAtBreak T (chunkEnd S T start))"
proof -
  define a where "a = max start (start + S - 200)"
  define b where "b = min (int (length T)) (start + S + 200)"
  define w where "w = substring T a b"
  have r: "0 \<le> a" "a \<le> b" "b \<le> int (length T)"
    using assms by (auto simp: a_def b_def)
  have win: "searchWindow S T start = w" by (simp add: searchWindow_def w_def a_def b_def)
  define n where "n = lastIndexOf w ''\<newline>\<newline>''"
  define d where "d = lastIndexOf w ''. ''"
  define sp where "sp = lastIndexOf w '' ''"
  have ce: "chunkEnd S T start =
      (let bp = (if n = - 1 then (if d = - 1 then sp else d) else n)
       in if bp \<noteq> - 1 then a + bp + (if bp = n then 2 else 1) else start + S)"
    using assms by (simp add: chunkEnd_def Let_def a_def b_def w_def n_def d_def sp_def)
  have "(chunkEnd S T start = start + S \<and> CHR '' '' \<notin> set w) \<or>
        (a < chunkEnd S T start \<and> chunkEnd S T start \<le> b \<and> cutAtBreak T (chunkEnd S T start))"
  proof (cases "n = - 1")
    case False
    with lastIndexOf_cases [of "''\<newline>\<newline>''" w] have
      m: "0 \<le> n" "matchesAt w ''\<newline>\<newline>'' (nat n)" by (auto simp: n_def)
    from matchesAt_substring [OF m(2) [unfolded w_def] _ r] m(1)
    have "substring T (a + n) (a + n + 2) = ''\<newline>\<newline>''" "a + n + 2 \<le> b" by auto
    moreover have "chunkEnd S T start = a + n + 2" using False by (simp add: ce)
    ultimately show ?thesis using m(1) by (simp add: cutAtBreak_def ac_simps)
  next
    case nn: True
    show ?thesis
    proof (cases "d = - 1")
      case False
      with lastIndexOf_cases [of "''. ''" w] have
        m: "0 \<le> d" "matchesAt w ''. '' (nat d)" by (auto simp: d_def)
      from matchesAt_substring [OF m(2) [unfolded w_def] _ r] m(1)
      have "substring T (a + d) (a + d + 2) = ''. ''" "a + d + 2 \<le> b" by auto
      moreover have "chunkEnd S T start = a + d + 1" using False nn by (simp add: ce)
      ultimately show ?thesis using m(1) by (simp add: cutAtBreak_def ac_simps)
    next
      case dn: True
      show ?thesis
      proof (cases "sp = - 1")
        case False
        with lastIndexOf_cases [of "'' ''" w] have
          m: "0 \<le> sp" "matchesAt w '' '' (nat sp)" by (auto simp: sp_def)
        from matchesAt_substring [OF m(2) [unfolded w_def] _ r] m(1)
        have "substring T (a + sp) (a + sp + 1) = '' ''" "a + sp + 1 \<le> b" by auto
        moreover have "chunkEnd S T start = a + sp + 1" using False nn dn by (simp add: ce)
        ultimately show ?thesis using m(1) by (simp add: cutAtBreak_def ac_simps)
      next
        case True
        have "CHR '' '' \<notin> set w"
        proof
          assume "CHR '' '' \<in> set w"
          then obtain i where "matchesAt w '' '' i" using space_matchesAt by blast
          then have "lastIndexOf w '' '' \<noteq> - 1" by (rule lastIndexOf_found) simp
          with True show False by (simp add: sp_def)
        qed
        moreover have "chunkEnd S T start = start + S" using True nn dn by (simp add: ce)
        ultimately show ?thesis by simp
      qed
    qed
  qed
  then show ?thesis unfolding win a_def b_def .
qed

section \<open>The splitter: the loop\<close>

lemma splitLoop_rule:
  assumes init: "I chunks start index"
    and step: "\<And>cs s i. I cs s i \<Longrightarrow> s < int (length T) \<Longrightarrow>
       I (cs @ [\<lparr>chunk_text = substring T s (chunkEnd S T s), chunk_index = i,
                  chunk_start = s, chunk_end = chunkEnd S T s\<rparr>])
         (max (s + 1) (chunkEnd S T s - Ov)) (i + 1)"
  shows "\<exists>cs s i. splitLoop S Ov T chunks start index = Some cs \<and> I cs s i \<and> int (length T) \<le> s"
  using init
proof (induction "nat (int (length T) - start)" arbitrary: chunks start index rule: less_induct)
  case less
  show ?case
  proof (cases "start < int (length T)")
    case True
    have "nat (int (length T) - max (start + 1) (chunkEnd S T start - Ov)) < nat (int (length T) - start)"
      using True by auto
    from less.hyps [OF this step [OF less.prems True]]
    show ?thesis by (subst splitLoop.simps) (simp add: True Let_def)
  next
    case False
    then show ?thesis using less.prems by (subst splitLoop.simps) auto
  qed
qed

lemma splitLoop_total: "\<exists>cs. splitLoop S Ov T chunks start index = Some cs"
  using splitLoop_rule [of "\<lambda>cs s i. True" chunks start index T S Ov] by auto

lemma splitText_total: "\<exists>cs. splitText S Ov T = Some cs"
  by (simp add: splitText_def splitLoop_total)

lemma covered_append: "covered pos (xs @ ys) = covered (covered pos xs) ys"
  by (induction xs arbitrary: pos) auto

lemma stitch_append: "stitch pos (xs @ ys) = stitch pos xs @ stitch (covered pos xs) ys"
  by (induction xs arbitrary: pos) auto

lemma chunkEnd_step:
  assumes "0 \<le> s" "1 \<le> S" "s < int (length T)"
  shows "s < chunkEnd S T s \<and> chunkEnd S T s \<le> int (length T) \<and>
         chunkEnd S T s - s \<le> S + 200 \<and>
         (s + S < int (length T) \<and> CHR '' '' \<in> set (searchWindow S T s)
            \<longrightarrow> cutAtBreak T (chunkEnd S T s))"
proof (cases "s + S < int (length T)")
  case True
  from chunkEnd_search [OF assms(1) _ True] assms(2) True show ?thesis by auto
next
  case False
  with assms show ?thesis by (simp add: chunkEnd_last)
qed

lemma chunk_step_OK:
  assumes "0 \<le> s" "1 \<le> S" "s < int (length T)"
  shows "chunkOK S T \<lparr>chunk_text = substring T s (chunkEnd S T s), chunk_index = i,
                       chunk_start = s, chunk_end = chunkEnd S T s\<rparr>"
proof -
  from chunkEnd_step [OF assms] have e: "s < chunkEnd S T s" "chunkEnd S T s \<le> int (length T)"
    "chunkEnd S T s - s \<le> S + 200"
    "s + S < int (length T) \<and> CHR '' '' \<in> set (searchWindow S T s) \<longrightarrow> cutAtBreak T (chunkEnd S T s)"
    by auto
  have "int (length (substring T s (chunkEnd S T s))) = chunkEnd S T s - s"
    using assms e by (intro length_substring) auto
  with e assms show ?thesis by (simp add: chunkOK_def)
qed

lemma stitch_step:
  assumes st: "stitch 0 cs = take (nat (covered 0 cs)) T"
    and r: "0 \<le> s" "s \<le> covered 0 cs" "covered 0 cs \<le> int (length T)" "s < e" "e \<le> int (length T)"
  shows "stitch 0 (cs @ [\<lparr>chunk_text = substring T s e, chunk_index = i, chunk_start = s, chunk_end = e\<rparr>]) =
         take (nat (max (covered 0 cs) e)) T"
proof -
  define P where "P = covered 0 cs"
  have sub: "substring T s e = take (nat (e - s)) (drop (nat s) T)"
    using r by (intro substring_range) auto
  have "drop (nat (P - s)) (substring T s e) = take (nat (e - s) - nat (P - s)) (drop (nat (P - s) + nat s) T)"
    by (simp add: sub drop_take)
  also have "nat (P - s) + nat s = nat P" using r by (simp add: P_def)
  also have "nat (e - s) - nat (P - s) = nat (max P e) - nat P" using r by (auto simp: P_def max_def)
  finally have d: "drop (nat (P - s)) (substring T s e) = take (nat (max P e) - nat P) (drop (nat P) T)" .
  have "take (nat (max P e)) T = take (nat P + (nat (max P e) - nat P)) T" by (simp add: max_def)
  also have "\<dots> = take (nat P) T @ take (nat (max P e) - nat P) (drop (nat P) T)"
    by (rule take_add)
  finally show ?thesis using st d by (simp add: stitch_append P_def)
qed

lemma splitInv_step:
  assumes inv: "splitInv S T cs s" and S: "1 \<le> S" and Ov: "0 \<le> Ov" and lt: "s < int (length T)"
  shows "splitInv S T
           (cs @ [\<lparr>chunk_text = substring T s (chunkEnd S T s), chunk_index = i,
                     chunk_start = s, chunk_end = chunkEnd S T s\<rparr>])
           (max (s + 1) (chunkEnd S T s - Ov))"
proof -
  let ?e = "chunkEnd S T s"
  let ?c = "\<lparr>chunk_text = substring T s ?e, chunk_index = i, chunk_start = s, chunk_end = ?e\<rparr>"
  from inv have s0: "0 \<le> s" and oks: "\<forall>c\<in>set cs. chunkOK S T c"
    and cov: "\<forall>p. 0 \<le> p \<and> p < s \<longrightarrow> (\<exists>c\<in>set cs. chunk_start c \<le> p \<and> p < chunk_end c)"
    and sc: "s \<le> covered 0 cs" and cl: "covered 0 cs \<le> int (length T)"
    and st: "stitch 0 cs = take (nat (covered 0 cs)) T"
    by (auto simp: splitInv_def)
  from chunkEnd_step [OF s0 S lt] have e: "s < ?e" "?e \<le> int (length T)" by auto
  have ok: "chunkOK S T ?c" using s0 S lt by (rule chunk_step_OK)
  have c1: "covered 0 (cs @ [?c]) = max (covered 0 cs) ?e" by (simp add: covered_append)
  have st': "stitch 0 (cs @ [?c]) = take (nat (max (covered 0 cs) ?e)) T"
    using st s0 sc cl e by (rule stitch_step)
  have cov': "\<forall>p. 0 \<le> p \<and> p < max (s + 1) (?e - Ov) \<longrightarrow>
                (\<exists>c\<in>set (cs @ [?c]). chunk_start c \<le> p \<and> p < chunk_end c)"
  proof (intro allI impI)
    fix p assume p: "0 \<le> p \<and> p < max (s + 1) (?e - Ov)"
    show "\<exists>c\<in>set (cs @ [?c]). chunk_start c \<le> p \<and> p < chunk_end c"
    proof (cases "p < s")
      case True
      with p cov show ?thesis by auto
    next
      case False
      with p e Ov have "s \<le> p \<and> p < ?e" by auto
      then show ?thesis by auto
    qed
  qed
  show ?thesis
    unfolding splitInv_def c1 st'
    using s0 oks ok cov' e Ov cl by auto
qed

lemma splitLoop_correct:
  assumes S: "1 \<le> S" and Ov: "0 \<le> Ov" and inv: "splitInv S T chunks start"
  shows "\<exists>cs. splitLoop S Ov T chunks start index = Some cs \<and>
           (\<forall>c\<in>set cs. chunkOK S T c) \<and>
           (\<forall>p. 0 \<le> p \<and> p < int (length T) \<longrightarrow> (\<exists>c\<in>set cs. chunk_start c \<le> p \<and> p < chunk_end c)) \<and>
           stitch 0 cs = T"
proof -
  from splitLoop_rule [of "\<lambda>cs s i. splitInv S T cs s" chunks start index T S Ov, OF inv]
    splitInv_step [OF _ S Ov]
  obtain cs s where r: "splitLoop S Ov T chunks start index = Some cs" "splitInv S T cs s"
    "int (length T) \<le> s" by blast
  from r(2,3) have "covered 0 cs = int (length T)" by (auto simp: splitInv_def)
  with r show ?thesis by (auto simp: splitInv_def)
qed

section \<open>The splitter: the number of chunks\<close>

lemma splitLoop_tail_count:
  assumes "Ov \<le> S" "int (length T) - Ov \<le> start" "start \<le> int (length T)"
  shows "\<exists>cs. splitLoop S Ov T chunks start index = Some cs \<and>
              length cs = length chunks + nat (int (length T) - start)"
  using assms
proof (induction "nat (int (length T) - start)" arbitrary: chunks start index rule: less_induct)
  case less
  show ?case
  proof (cases "start < int (length T)")
    case True
    with less.prems have e: "chunkEnd S T start = int (length T)" by (intro chunkEnd_last) auto
    have nx: "max (start + 1) (int (length T) - Ov) = start + 1" using less.prems by auto
    have "nat (int (length T) - (start + 1)) < nat (int (length T) - start)" using True by auto
    from less.hyps [OF this less.prems(1)] less.prems True
    obtain cs where "splitLoop S Ov T
        (chunks @ [\<lparr>chunk_text = substring T start (int (length T)), chunk_index = index,
                      chunk_start = start, chunk_end = int (length T)\<rparr>]) (start + 1) (index + 1) = Some cs"
      "length cs = length chunks + 1 + nat (int (length T) - (start + 1))"
      by fastforce
    moreover have "1 + nat (int (length T) - (start + 1)) = nat (int (length T) - start)"
      using True by auto
    ultimately show ?thesis
      by (subst splitLoop.simps) (simp add: True Let_def e nx del: One_nat_def)
  next
    case False
    with less.prems show ?thesis by (subst splitLoop.simps) auto
  qed
qed

lemma splitLoop_last_count:
  assumes "0 \<le> Ov" "Ov \<le> S" "start < int (length T) - Ov" "int (length T) \<le> start + S"
  shows "\<exists>cs. splitLoop S Ov T chunks start index = Some cs \<and>
              length cs = length chunks + 1 + nat Ov"
proof -
  have lt: "start < int (length T)" using assms by auto
  have e: "chunkEnd S T start = int (length T)" using assms by (intro chunkEnd_last) auto
  have nx: "max (start + 1) (int (length T) - Ov) = int (length T) - Ov" using assms by auto
  from splitLoop_tail_count [of Ov S T "int (length T) - Ov"
      "chunks @ [\<lparr>chunk_text = substring T start (int (length T)), chunk_index = index,
                    chunk_start = start, chunk_end = int (length T)\<rparr>]" "index + 1"] assms
  obtain cs where "splitLoop S Ov T
        (chunks @ [\<lparr>chunk_text = substring T start (int (length T)), chunk_index = index,
                      chunk_start = start, chunk_end = int (length T)\<rparr>])
        (int (length T) - Ov) (index + 1) = Some cs"
      "length cs = length chunks + 1 + nat Ov"
    by auto
  then show ?thesis by (subst splitLoop.simps) (simp add: lt Let_def e nx del: One_nat_def)
qed

lemma splitLoop_mid_step:
  assumes "0 \<le> start" "200 \<le> S" "Ov \<le> S - 200" "start + S < int (length T)"
  shows "\<exists>c s'. splitLoop S Ov T chunks start index = splitLoop S Ov T (chunks @ [c]) s' (index + 1) \<and>
           start + S - 200 - Ov < s' \<and> s' \<le> start + S + 200 - Ov"
proof -
  have lt: "start < int (length T)" using assms by auto
  from chunkEnd_search [OF assms(1) _ assms(4)] assms
  have e: "start + S - 200 < chunkEnd S T start" "chunkEnd S T start \<le> start + S + 200" by auto
  then have nx: "max (start + 1) (chunkEnd S T start - Ov) = chunkEnd S T start - Ov"
    using assms by auto
  have "splitLoop S Ov T chunks start index =
        splitLoop S Ov T (chunks @ [\<lparr>chunk_text = substring T start (chunkEnd S T start),
           chunk_index = index, chunk_start = start, chunk_end = chunkEnd S T start\<rparr>])
          (chunkEnd S T start - Ov) (index + 1)"
    by (subst splitLoop.simps) (simp add: lt Let_def nx)
  with e show ?thesis by (intro exI conjI) (assumption, auto)
qed

lemma splitText_500000:
  assumes len: "length T = 500000"
  shows "\<exists>cs. splitText 225000 1000 T = Some cs \<and> length cs = 1003"
proof -
  from splitLoop_mid_step [of 0 225000 1000 T "[]" 0] len
  obtain c1 s1 where 1: "splitLoop 225000 1000 T [] 0 0 = splitLoop 225000 1000 T [c1] s1 1"
    "223800 < s1" "s1 \<le> 224200" by auto
  from splitLoop_mid_step [of s1 225000 1000 T "[c1]" 1] len 1(2,3)
  obtain c2 s2 where 2: "splitLoop 225000 1000 T [c1] s1 1 = splitLoop 225000 1000 T [c1, c2] s2 2"
    "447600 < s2" "s2 \<le> 448400" by auto
  from splitLoop_last_count [of 1000 225000 s2 T "[c1, c2]" 2] len 2(2,3)
  obtain cs where "splitLoop 225000 1000 T [c1, c2] s2 2 = Some cs" "length cs = 1003" by auto
  with 1 2 len show ?thesis by (simp add: splitText_def)
qed

section \<open>The splitter: the claims\<close>

text \<open>
  C5. \<open>splitText\<close> returns for every text, every chunk size and every overlap, also an
  overlap that is not smaller than the chunk size: an iteration moves \<open>start\<close> to
  \<open>max(start + 1, end - overlap)\<close>, which is above \<open>start\<close>, so \<open>start\<close> reaches the length of
  the text. The model gives \<open>None\<close> to a loop that does not return; the theorem says that
  the result is never \<open>None\<close>.
\<close>

theorem splitText_terminates:
  "(\<exists>chunks. splitText chunkSize chunkOverlap text = Some chunks) \<and>
   start < max (start + 1) (chunkEnd chunkSize text start - chunkOverlap)"
  using splitText_total [of chunkSize chunkOverlap "text"] by simp

text \<open>
  C4, as stated, fails in two ways. For the chunk size 0 the text \<open>a\<close> is longer than the
  chunk size, and the splitter returns one chunk with the empty span from 0 to 0, which
  neither covers the text nor gives it back. For the chunk size 3, the overlap 0 and the
  text \<open>a bcdefgh\<close>, the second chunk ends at position 5, inside a word, although a space
  lies within 200 characters of that cut point: the space is before the start of the
  chunk, and the search never looks before the start of the chunk.
\<close>

theorem splitText_claim_counterexample:
  "splitText 0 1000 ''a'' =
     Some [\<lparr>chunk_text = [], chunk_index = 0, chunk_start = 0, chunk_end = 0\<rparr>] \<and>
   stitch 0 [\<lparr>chunk_text = [], chunk_index = 0, chunk_start = 0, chunk_end = 0\<rparr>] \<noteq> ''a'' \<and>
   splitText 3 0 ''a bcdefgh'' =
     Some [\<lparr>chunk_text = ''a '', chunk_index = 0, chunk_start = 0, chunk_end = 2\<rparr>,
           \<lparr>chunk_text = ''bcd'', chunk_index = 1, chunk_start = 2, chunk_end = 5\<rparr>,
           \<lparr>chunk_text = ''efg'', chunk_index = 2, chunk_start = 5, chunk_end = 8\<rparr>,
           \<lparr>chunk_text = ''h'', chunk_index = 3, chunk_start = 8, chunk_end = 9\<rparr>] \<and>
   CHR '' '' \<in> set (substring ''a bcdefgh'' (5 - 200) (5 + 200)) \<and>
   \<not> cutAtBreak ''a bcdefgh'' 5"
  by code_simp

text \<open>
  C4, amended: for a chunk size of at least 1, an overlap that is not negative and a text
  longer than the chunk size, \<open>splitText\<close> returns chunks such that the text of every
  chunk is the substring of the text at its span, the span is not empty and lies in the
  text, no chunk is longer than the chunk size plus 400, the end of a chunk does not split
  a word when the window searched has a space (the window is the 200 characters on each
  side of the cut point that lie in the text and not before the start of the chunk; the
  end then follows a paragraph break or a space, or lies between a full stop and a
  space), every position of the text
  lies in the span of some chunk, and the texts of the chunks, each without its overlap
  with the chunks before, give the text back.
\<close>

theorem splitText_chunks_cover_text:
  assumes "1 \<le> chunkSize" and "0 \<le> chunkOverlap" and "chunkSize < int (length text)"
  shows "\<exists>chunks. splitText chunkSize chunkOverlap text = Some chunks \<and>
           (\<forall>c\<in>set chunks. chunkOK chunkSize text c) \<and>
           (\<forall>p. 0 \<le> p \<and> p < int (length text) \<longrightarrow>
                (\<exists>c\<in>set chunks. chunk_start c \<le> p \<and> p < chunk_end c)) \<and>
           stitch 0 chunks = text"
proof -
  have "splitInv chunkSize text [] 0" by (simp add: splitInv_def)
  from splitLoop_correct [OF assms(1,2) this, of 0] assms(3)
  show ?thesis by (simp add: splitText_def)
qed

theorem splitText_chunks_cover_text_witness:
  "1 \<le> (3::int) \<and> 0 \<le> (1::int) \<and> 3 < int (length ''ab cdefgh'') \<and>
   (\<exists>chunks. splitText 3 1 ''ab cdefgh'' = Some chunks \<and>
      (\<forall>c\<in>set chunks. chunkOK 3 ''ab cdefgh'' c) \<and>
      (\<forall>p. 0 \<le> p \<and> p < int (length ''ab cdefgh'') \<longrightarrow>
           (\<exists>c\<in>set chunks. chunk_start c \<le> p \<and> p < chunk_end c)) \<and>
      stitch 0 chunks = ''ab cdefgh'')"
  using splitText_chunks_cover_text [of 3 1 "''ab cdefgh''"] by simp


section \<open>The Anki export\<close>

lemma splitChar_no_sep: "sep \<notin> set x \<Longrightarrow> splitChar sep x = [x]"
  by (induction x) auto

lemma splitChar_append_sep:
  "sep \<notin> set x \<Longrightarrow> splitChar sep (x @ sep # rest) = x # splitChar sep rest"
  by (induction x) auto

lemma splitChar_join:
  "rows \<noteq> [] \<Longrightarrow> \<forall>r\<in>set rows. sep \<notin> set r \<Longrightarrow> splitChar sep (join [sep] rows) = rows"
proof (induction "[sep]" rows rule: join.induct)
  case 1
  then show ?case by simp
next
  case (2 x)
  then show ?case by (simp add: splitChar_no_sep)
next
  case (3 x y ys)
  then show ?case by (simp add: splitChar_append_sep)
qed

lemma set_join: "set (join sep xs) \<subseteq> set sep \<union> (\<Union>x\<in>set xs. set x)"
  by (induction sep xs rule: join.induct) auto

lemma count_list_zero: "c \<notin> set xs \<Longrightarrow> count_list xs c = 0"
  by (induction xs) auto

lemma TAB_replaceTabs: "TAB \<notin> set (replaceTabs s)"
  by (auto simp: replaceTabs_def TAB_def)

lemma set_replaceTabs: "set (replaceTabs s) \<subseteq> insert (CHR '' '') (set s)"
  by (auto simp: replaceTabs_def)

lemma ankiRow_clean:
  assumes "cleanCard fc"
  shows "count_list (ankiRow fc) TAB = 2 \<and> CHR ''\<newline>'' \<notin> set (ankiRow fc)"
proof -
  let ?ts = "case fc_tags fc of Some ts \<Rightarrow> ts | None \<Rightarrow> []"
  from assms have t: "\<forall>t\<in>set ?ts. TAB \<notin> set t \<and> CHR ''\<newline>'' \<notin> set t"
    by (simp add: cleanCard_def list_all_iff)
  have j: "TAB \<notin> set (join '' '' ?ts)" "CHR ''\<newline>'' \<notin> set (join '' '' ?ts)"
    using set_join [of "'' ''" ?ts] t by (auto simp: TAB_def)
  have f: "CHR ''\<newline>'' \<notin> set (replaceTabs (fc_front fc))" "CHR ''\<newline>'' \<notin> set (replaceTabs (fc_back fc))"
    using assms set_replaceTabs [of "fc_front fc"] set_replaceTabs [of "fc_back fc"]
    by (auto simp: cleanCard_def)
  have "count_list (ankiRow fc) TAB = 2"
    by (simp add: ankiRow_def count_list_zero [OF TAB_replaceTabs] count_list_zero [OF j(1)])
  moreover have "CHR ''\<newline>'' \<notin> set (ankiRow fc)"
    using f j(2) by (simp add: ankiRow_def TAB_def)
  ultimately show ?thesis by simp
qed

text \<open>
  Where the export keeps its format: for flashcards with no newline in front, back and
  tags and no tab in the tags, splitting the output at the newlines gives the rows back,
  one for each flashcard, and every row has exactly two tabs. These are the characters that
  \<open>flashcardsToAnki\<close> leaves in place; the theorem after this one shows what they do.
\<close>

lemma flashcardsToAnki_clean_cards:
  assumes "\<forall>fc\<in>set flashcards. cleanCard fc"
  shows "(flashcards \<noteq> [] \<longrightarrow>
            splitChar (CHR ''\<newline>'') (flashcardsToAnki flashcards) = map ankiRow flashcards) \<and>
         (flashcards = [] \<longrightarrow> flashcardsToAnki flashcards = []) \<and>
         (\<forall>fc\<in>set flashcards.
            count_list (ankiRow fc) TAB = 2 \<and> CHR ''\<newline>'' \<notin> set (ankiRow fc) \<and>
            TAB \<notin> set (replaceTabs (fc_front fc)) \<and> TAB \<notin> set (replaceTabs (fc_back fc)))"
proof -
  have rows: "\<forall>r\<in>set (map ankiRow flashcards). CHR ''\<newline>'' \<notin> set r"
    using assms ankiRow_clean by auto
  have "flashcards \<noteq> [] \<longrightarrow>
        splitChar (CHR ''\<newline>'') (flashcardsToAnki flashcards) = map ankiRow flashcards"
    using splitChar_join [of "map ankiRow flashcards" "CHR ''\<newline>''"] rows
    by (simp add: flashcardsToAnki_def)
  moreover have "flashcards = [] \<longrightarrow> flashcardsToAnki flashcards = []"
    by (simp add: flashcardsToAnki_def)
  ultimately show ?thesis using assms ankiRow_clean TAB_replaceTabs by blast
qed

text \<open>
  C9 does not hold of \<open>flashcardsToAnki\<close>: the function replaces the tabs of front and back
  and nothing else. The list of one flashcard with front \<open>Q\<close> and back \<open>yes\<close>, newline, \<open>no\<close>
  (the shape of the flashcards that the service builds from a quiz question, whose back is
  the answers joined by newlines) is exported as two lines, not one: the first line has one
  tab and the second line, \<open>no\<close> and a tab, has one tab. A newline in the front does the
  same. And the flashcard with the one tag \<open>x\<close>, tab, \<open>y\<close> is exported as a line of three
  tabs, not two. The comment of the function gives the format as front, tab, back, tab,
  tags on a line, and \<open>flashcardsToCSV\<close> beside it quotes the fields that hold a newline.
\<close>

theorem flashcardsToAnki_newline_breaks_lines:
  "splitChar (CHR ''\<newline>'')
     (flashcardsToAnki [\<lparr>fc_front = ''Q'', fc_back = ''yes\<newline>no'', fc_tags = None\<rparr>]) =
     [[CHR ''Q'', TAB, CHR ''y'', CHR ''e'', CHR ''s''], [CHR ''n'', CHR ''o'', TAB]] \<and>
   length (splitChar (CHR ''\<newline>'')
     (flashcardsToAnki [\<lparr>fc_front = ''Q'', fc_back = ''yes\<newline>no'', fc_tags = None\<rparr>])) = 2 \<and>
   count_list [CHR ''Q'', TAB, CHR ''y'', CHR ''e'', CHR ''s''] TAB = 1 \<and>
   count_list [CHR ''n'', CHR ''o'', TAB] TAB = 1 \<and>
   length (splitChar (CHR ''\<newline>'')
     (flashcardsToAnki [\<lparr>fc_front = ''a\<newline>b'', fc_back = ''c'', fc_tags = None\<rparr>])) = 2 \<and>
   count_list
     (flashcardsToAnki
        [\<lparr>fc_front = ''a'', fc_back = ''b'', fc_tags = Some [[CHR ''x'', TAB, CHR ''y'']]\<rparr>])
     TAB = 3"
  by (simp add: flashcardsToAnki_def ankiRow_def replaceTabs_def TAB_def)

section \<open>Error codes in the response of an add-source call\<close>

lemma startsWith_append: "startsWith s (p @ q) \<Longrightarrow> startsWith s p"
proof -
  assume "startsWith s (p @ q)"
  then have "take (length p + length q) s = p @ q" by (simp add: startsWith_def)
  then have "take (length p) (take (length p + length q) s) = take (length p) (p @ q)" by simp
  then show ?thesis by (simp add: startsWith_def min_def)
qed

lemma errorMarkerAt_startsWith:
  \<open>errorMarkerAt s = Some c \<Longrightarrow> startsWith s ''["e",4''\<close>
proof -
  assume "errorMarkerAt s = Some c"
  then have \<open>startsWith s (''["e",4'' @ '',null,null,'')\<close>
    by (simp add: errorMarkerAt_def split: if_splits)
  then show ?thesis by (rule startsWith_append)
qed

lemma matchErrorMarker_includes:
  \<open>matchErrorMarker r = Some c \<Longrightarrow> includesStr r ''["e",4''\<close>
proof (induction r)
  case Nil
  then show ?case by simp
next
  case (Cons a r)
  then show ?case
    by (cases "errorMarkerAt (a # r)") (auto dest: errorMarkerAt_startsWith)
qed

lemma checkAddSourceResponse_code:
  assumes "matchErrorMarker response = Some code"
  shows "checkAddSourceResponse response w =
           (if code \<in> set normalErrorCodes then (Inr (), w)
            else (Inl (JsError (''RPC returned error code: '' @ code)),
                  warn (''Unexpected error code in RPC response: '' @ code) w))"
  using assms matchErrorMarker_includes [OF assms] by (simp add: checkAddSourceResponse_def)

text \<open>
  For \<open>addSource\<close> with a URL the claim C1 holds: when the response carries an error
  marker, the call returns if and only if the code is in the list, and otherwise throws
  an error whose message carries the code.
\<close>

lemma addSource_url_code:
  assumes "c_type content = UrlContent"
    and "\<And>call. rpc_response E (length (rpcLog w)) call = Inr response"
    and "matchErrorMarker response = Some code"
  shows "(fst (addSource E notebookId content w) = Inr () \<longleftrightarrow> code \<in> set normalErrorCodes) \<and>
         (code \<notin> set normalErrorCodes \<longrightarrow>
            fst (addSource E notebookId content w) = Inl (JsError (''RPC returned error code: '' @ code)))"
  using assms by (simp add: addSource_def rpc_def checkAddSourceResponse_code)

text \<open>
  C1. \<open>addTextSource\<close> does not behave so: on a response that carries the error marker
  with the code 999, which is in neither list, it returns without an error. Its check of
  the response only writes a warning to the console.
\<close>

theorem addTextSource_accepts_unlisted_code:
  \<open>fst (addTextSource (E\<lparr>rpc_response := \<lambda>n c. Inr ''["e",4,null,null,999]''\<rparr>) notebookId txt title w) = Inr () \<and>
   matchErrorMarker ''["e",4,null,null,999]'' = Some ''999'' \<and>
   ''999'' \<notin> set normalErrorCodes \<and> ''999'' \<notin> set normalErrorCodesText\<close>
  by (simp add: addTextSource_def rpc_def errorMarkerAt_def startsWith_def isDigit_def
      normalErrorCodes_def normalErrorCodesText_def)

section \<open>The defaults of a parsed source\<close>

lemma typeCode_parseSource: "typeCode (parseSource B row) \<noteq> 0"
  by (simp add: parseSource_def Let_def)

lemma typeCode_default:
  "metaTypeCode row = 0 \<Longrightarrow> searchTypeCode (take 3 (drop 2 row)) 0 = 0 \<Longrightarrow>
   source_url (parseSource B row) = None \<Longrightarrow> typeCode (parseSource B row) = 2"
  by (simp add: parseSource_def Let_def split: option.splits if_splits)

lemma status_default:
  "(\<forall>st q. arr_get row 3 = Arr st \<and> 1 < length st \<longrightarrow> arr_get st 1 \<noteq> Num q) \<Longrightarrow>
   source_status (parseSource B row) = 2"
  by (auto simp: parseSource_def Let_def extractStatus_def split: jsval.splits)

lemma sources_parseNotebookDetails:
  "src \<in> set (sources (parseNotebookDetails B responseText)) \<Longrightarrow> \<exists>row. src = parseSource B row"
  by (auto simp: parseNotebookDetails_def emptyDetails_def split: option.splits prod.splits if_splits)

text \<open>
  C10. Every source that \<open>parseNotebookDetails\<close> returns, for every response text and
  whatever \<open>JSON.parse\<close> gives, has a type code other than 0; the status is a number by
  the type of the field. For one row: when the fixed index gives no type code, the broader
  search finds none and the row has no URL, the type code is 2 (text); when the row has
  no number at \<open>row[3][1]\<close>, the status is 2 (ready).
\<close>

theorem parseNotebookDetails_defaults:
  "(\<forall>src\<in>set (sources (parseNotebookDetails B responseText)). typeCode src \<noteq> 0) \<and>
   (metaTypeCode row = 0 \<and> searchTypeCode (take 3 (drop 2 row)) 0 = 0 \<and>
    source_url (parseSource B row) = None \<longrightarrow> typeCode (parseSource B row) = 2) \<and>
   ((\<forall>st q. arr_get row 3 = Arr st \<and> 1 < length st \<longrightarrow> arr_get st 1 \<noteq> Num q) \<longrightarrow>
    source_status (parseSource B row) = 2)"
  using sources_parseNotebookDetails typeCode_parseSource typeCode_default status_default
  by blast

lemma sample_sources:
  "map typeCode (sources (parseNotebookDetails sampleBuiltins sampleResponse)) = [9, 2]"
  by (simp add: parseNotebookDetails_def sampleBuiltins_def sampleResponse_def startsWith_def
      arr_get_def orEmpty_def parseSource_def Let_def extractSourceId_def extractTitle_def
      metaTypeCode_def metaUrl_def extractStatus_def isInteger_def inTypeMap_def API_TYPE_MAP_def
      fallbackTitle_def isURL_def isUUID_def)


theorem parseNotebookDetails_defaults_witness:
  "map typeCode (sources (parseNotebookDetails sampleBuiltins sampleResponse)) = [9, 2] \<and>
   metaTypeCode [Arr [Str ''id2'']] = 0 \<and>
   searchTypeCode (take 3 (drop 2 [Arr [Str ''id2'']])) 0 = 0 \<and>
   source_url (parseSource sampleBuiltins [Arr [Str ''id2'']]) = None \<and>
   typeCode (parseSource sampleBuiltins [Arr [Str ''id2'']]) = 2 \<and>
   source_status (parseSource sampleBuiltins [Arr [Str ''id2'']]) = 2"
  using parseNotebookDetails_defaults [of sampleBuiltins sampleResponse "[Arr [Str ''id2'']]"]
    sample_sources
  by (simp add: metaTypeCode_def arr_get_def parseSource_def Let_def metaUrl_def
      extractStatus_def isURL_def startsWith_def)

section \<open>Token refresh: concurrent callers\<close>

lemma step_first_caller:
  "step initialClient \<lparr>tokens = None, isRefreshingTokens = True, callers = [Fetching]\<rparr>"
  using enter_free [of initialClient] by (simp add: initialClient_def)

lemma step_second_caller:
  "step \<lparr>tokens = None, isRefreshingTokens = True, callers = [Fetching]\<rparr>
        \<lparr>tokens = None, isRefreshingTokens = True, callers = [Fetching, Sleeping]\<rparr>"
  using enter_busy [of "\<lparr>tokens = None, isRefreshingTokens = True, callers = [Fetching]\<rparr>"]
  by simp

lemma step_second_caller_wakes:
  "step \<lparr>tokens = None, isRefreshingTokens = True, callers = [Fetching, Sleeping]\<rparr>
        \<lparr>tokens = None, isRefreshingTokens = True, callers = [Fetching, Fetching]\<rparr>"
  using wake_miss [of 1 "\<lparr>tokens = None, isRefreshingTokens = True, callers = [Fetching, Sleeping]\<rparr>"]
  by simp

text \<open>
  C3. Two fetches of the page can be in flight at once. A first caller sets the flag and
  starts its fetch; a second caller finds the flag set and sleeps for 100 ms; when the
  sleep ends and the first fetch has not finished, there are no tokens yet, and the
  second caller does not wait further: it sets the flag and starts a fetch of its own.
\<close>

theorem two_refresh_fetches_in_flight:
  "reachable \<lparr>tokens = None, isRefreshingTokens = True, callers = [Fetching, Fetching]\<rparr> \<and>
   fetchesInFlight \<lparr>tokens = None, isRefreshingTokens = True, callers = [Fetching, Fetching]\<rparr> = 2"
proof -
  have "reachable \<lparr>tokens = None, isRefreshingTokens = True, callers = [Fetching]\<rparr>"
    using reach_init step_first_caller by (rule reach_step)
  then have "reachable \<lparr>tokens = None, isRefreshingTokens = True, callers = [Fetching, Sleeping]\<rparr>"
    using step_second_caller by (rule reach_step)
  then have "reachable \<lparr>tokens = None, isRefreshingTokens = True, callers = [Fetching, Fetching]\<rparr>"
    using step_second_caller_wakes by (rule reach_step)
  then show ?thesis by (simp add: fetchesInFlight_def)
qed

section \<open>DOM extraction: failures\<close>




















section \<open>The queue: what a step changes\<close>

lemma frame_same: "uploadQueue w' = uploadQueue w \<Longrightarrow> frame ident w w'"
  by (simp add: frame_def)

lemma frame_trans: "frame ident w w1 \<Longrightarrow> frame ident w1 w2 \<Longrightarrow> frame ident w w2"
proof -
  assume a: "frame ident w w1" and b: "frame ident w1 w2"
  from a b have ids: "map item_id (uploadQueue w2) = map item_id (uploadQueue w)"
    by (simp add: frame_def)
  from a have len: "length (uploadQueue w1) = length (uploadQueue w)"
    by (metis frame_def length_map)
  have "\<forall>k < length (uploadQueue w).
          item_id (uploadQueue w ! k) \<noteq> ident \<longrightarrow> uploadQueue w2 ! k = uploadQueue w ! k"
  proof (intro allI impI)
    fix k assume k: "k < length (uploadQueue w)" and ne: "item_id (uploadQueue w ! k) \<noteq> ident"
    from a k ne have e1: "uploadQueue w1 ! k = uploadQueue w ! k" by (simp add: frame_def)
    with b k ne len show "uploadQueue w2 ! k = uploadQueue w ! k" by (simp add: frame_def)
  qed
  with ids show ?thesis by (simp add: frame_def)
qed

lemma frame_update:
  "(\<And>x. item_id (f x) = item_id x) \<Longrightarrow> frame ident w (updateQueueItem ident f w)"
  by (simp add: frame_def updateQueueItem_def)



lemma queue_rpc [simp]: "uploadQueue (snd (rpc E rid ps path w)) = uploadQueue w"
  by (simp add: rpc_def Let_def)

lemma queue_warn [simp]: "uploadQueue (warn msg w) = uploadQueue w"
  by (simp add: warn_def)


lemma queue_checkAddSourceResponse [simp]:
  "uploadQueue (snd (checkAddSourceResponse response w)) = uploadQueue w"
  by (simp add: checkAddSourceResponse_def split: option.splits)


lemma queue_checkAddTextSourceResponse [simp]:
  "uploadQueue (checkAddTextSourceResponse response w) = uploadQueue w"
  by (simp add: checkAddTextSourceResponse_def split: option.splits)

lemma queue_addTextSource [simp]:
  "uploadQueue (snd (addTextSource E nb txt title w)) = uploadQueue w"
  by (simp add: addTextSource_def rpc_def Let_def split: sum.splits)

lemma queue_getNotebook [simp]:
  "uploadQueue (snd (getNotebook E nb w)) = uploadQueue w"
  by (simp add: getNotebook_def rpc_def Let_def split: sum.splits)


lemma queue_waitForTextSource [simp]:
  "uploadQueue (waitForTextSource E nb title w) = uploadQueue w"
proof -
  obtain r w' where g: "getNotebook E nb w = (r, w')" by (cases "getNotebook E nb w")
  then have "uploadQueue w' = uploadQueue w" using queue_getNotebook [of E nb w] by simp
  with g show ?thesis by (cases r) (simp_all add: waitForTextSource_def)
qed


lemma frame_uploadChunks:
  "frame (item_id item) w (snd (uploadChunks E waits nb item n i cs w))"
proof (induction cs arbitrary: i w)
  case Nil
  then show ?case by (simp add: frame_same)
next
  case (Cons c cs)
  obtain r w1 where a: "addTextSource E nb c (partTitle (item_title item) (i + 1) n) w = (r, w1)"
    by (cases "addTextSource E nb c (partTitle (item_title item) (i + 1) n) w")
  then have q1: "uploadQueue w1 = uploadQueue w"
    using queue_addTextSource [of E nb c "partTitle (item_title item) (i + 1) n" w] by simp
  show ?case
  proof (cases r)
    case (Inl e)
    with a q1 show ?thesis by (simp add: frame_same)
  next
    case (Inr u)
    define w2 where "w2 = updateQueueItem (item_id item)
        (\<lambda>it. it\<lparr>item_currentChunk := Some (i + 1),
                  item_progress := Some (of_int (i + 1) / of_int n * 100)\<rparr>) w1"
    define w3 where "w3 = (if waits \<and> i < n - 1
        then waitForTextSource E nb (partTitle (item_title item) (i + 1) n) w2 else w2)"
    have f1: "frame (item_id item) w w1" using q1 by (rule frame_same)
    have f2: "frame (item_id item) w1 w2" unfolding w2_def by (rule frame_update) simp
    have f3: "frame (item_id item) w2 w3" unfolding w3_def by (simp add: frame_same)
    have "snd (uploadChunks E waits nb item n i (c # cs) w) =
          snd (uploadChunks E waits nb item n (i + 1) cs w3)"
      using a Inr by (simp add: w2_def w3_def Let_def)
    with Cons [where i = "i + 1" and w = w3] f1 f2 f3 show ?thesis by (metis frame_trans)
  qed
qed

lemma frame_uploadAllChunks:
  "frame (item_id item) w (snd (uploadAllChunks E waits nb item cs w))"
proof -
  define w0 where "w0 = updateQueueItem (item_id item)
      (\<lambda>it. it\<lparr>item_chunks := Some (int (length cs)), item_currentChunk := Some 0\<rparr>) w"
  have f0: "frame (item_id item) w w0" unfolding w0_def by (rule frame_update) simp
  obtain r w1 where u: "uploadChunks E waits nb item (int (length cs)) 0 cs w0 = (r, w1)"
    by (cases "uploadChunks E waits nb item (int (length cs)) 0 cs w0")
  with frame_uploadChunks [of item w0 E waits nb "int (length cs)" 0 cs]
  have f1: "frame (item_id item) w0 w1" by simp
  have "frame (item_id item) w1 (snd (uploadAllChunks E waits nb item cs w))"
    using u by (cases r) (simp_all add: uploadAllChunks_def Let_def w0_def frame_same)
  with f0 f1 show ?thesis by (metis frame_trans)
qed









lemma frame_uploadAllChunks':
  "uploadAllChunks E waits nb item cs w = (r, w') \<Longrightarrow> frame (item_id item) w w'"
  using frame_uploadAllChunks [of item w E waits nb cs] by simp







section \<open>The queue: the claims\<close>



lemma eval_duplicate:
  "map_option (\<lambda>(r, w'). (r, map (\<lambda>x. (item_status x, item_error x)) (uploadQueue w'), map rpcId (rpcLog w')))
     (processItem (sampleEnv sampleBuiltins notebookServer) (sampleItem ''a'' '' title ONE '')
        (sampleWorld [sampleItem ''a'' '' title ONE ''])) =
   Some (Inr (), [(Error, Some ''Source already exists in notebook'')], [''rLM1Ne''])"
  by code_simp



lemma titleMatch_iff:
  "titleMatch srcs title \<longleftrightarrow>
     (\<exists>source\<in>set srcs. source_title source = title \<or>
        trim (toLowerCase (source_title source)) = trim (toLowerCase title))"
  by (simp add: titleMatch_def list_ex_iff)

lemma getNotebook_log:
  "getNotebook E nb w = (r, w1) \<Longrightarrow>
   rpcLog w1 = rpcLog w @ [\<lparr>rpcId = ''rLM1Ne'', params = Arr [Str nb, Null, Arr [Num 2], Null, Num 1],
                             sourcePath = ''/notebook/'' @ nb\<rparr>] \<and>
   uploadQueue w1 = uploadQueue w"
  by (auto simp: getNotebook_def rpc_def Let_def split: sum.splits)

text \<open>
  C7, amended: if the title of the item is not empty, the duplicate check fetches the
  notebook, and a source of it has the same title, exactly or after lower-casing and
  trimming, then \<open>processItem\<close> returns, every item of the queue with that id has the
  status error and the message \<open>Source already exists in notebook\<close>, which contains
  \<open>already exists\<close>, and the only call of \<open>rpc\<close> is the fetch of the notebook: no add-source
  call is made.
\<close>

theorem duplicate_title_stops_item:
  assumes "resolveNotebookId item w = Some notebookId"
    and "getNotebook E notebookId w = (Inr notebook, w1)"
    and "item_title item \<noteq> []"
    and "\<exists>source\<in>set (sources notebook).
           source_title source = item_title item \<or>
           trim (toLowerCase (source_title source)) = trim (toLowerCase (item_title item))"
  shows "\<exists>w'. processItem E item w = Some (Inr (), w') \<and>
           rpcLog w' = rpcLog w @ [\<lparr>rpcId = ''rLM1Ne'',
                                     params = Arr [Str notebookId, Null, Arr [Num 2], Null, Num 1],
                                     sourcePath = ''/notebook/'' @ notebookId\<rparr>] \<and>
           map item_id (uploadQueue w') = map item_id (uploadQueue w) \<and>
           (\<forall>x\<in>set (uploadQueue w'). item_id x = item_id item \<longrightarrow>
               item_status x = Error \<and>
               item_error x = Some ''Source already exists in notebook'') \<and>
           includesStr ''Source already exists in notebook'' ''already exists''"
proof -
  let ?w' = "updateQueueItem (item_id item)
      (\<lambda>it. it\<lparr>item_status := Error, item_progress := Some 0,
                item_error := Some ''Source already exists in notebook''\<rparr>) w1"
  from assms(3,4) have "isDuplicateIn (builtin E) notebook item"
    by (simp add: isDuplicateIn_def titleMatch_iff)
  with assms(2) have "checkDuplicate E notebookId item w = (True, w1)"
    by (simp add: checkDuplicate_def)
  with assms(1) have p: "processItem E item w = Some (Inr (), ?w')"
    by (simp add: processItem_def)
  from getNotebook_log [OF assms(2)] have l: "rpcLog ?w' = rpcLog w @ [\<lparr>rpcId = ''rLM1Ne'',
        params = Arr [Str notebookId, Null, Arr [Num 2], Null, Num 1],
        sourcePath = ''/notebook/'' @ notebookId\<rparr>]"
    and q: "map item_id (uploadQueue ?w') = map item_id (uploadQueue w)"
    by (auto simp: updateQueueItem_def)
  have s: "\<forall>x\<in>set (uploadQueue ?w'). item_id x = item_id item \<longrightarrow>
      item_status x = Error \<and> item_error x = Some ''Source already exists in notebook''"
    by (auto simp: updateQueueItem_def)
  have i: "includesStr ''Source already exists in notebook'' ''already exists''"
    by (simp add: startsWith_def)
  from p l q s i show ?thesis by blast
qed

theorem duplicate_title_stops_item_witness:
  "map_option (\<lambda>(r, w'). (r, map (\<lambda>x. (item_status x, item_error x)) (uploadQueue w'), map rpcId (rpcLog w')))
     (processItem (sampleEnv sampleBuiltins notebookServer) (sampleItem ''a'' '' title ONE '')
        (sampleWorld [sampleItem ''a'' '' title ONE ''])) =
   Some (Inr (), [(Error, Some ''Source already exists in notebook'')], [''rLM1Ne'']) \<and>
   (\<exists>w'. processItem (sampleEnv sampleBuiltins notebookServer) (sampleItem ''a'' '' title ONE '')
           (sampleWorld [sampleItem ''a'' '' title ONE '']) = Some (Inr (), w') \<and>
         map rpcId (rpcLog w') = [''rLM1Ne''])"
proof -
  let ?E = "sampleEnv sampleBuiltins notebookServer"
  let ?item = "sampleItem ''a'' '' title ONE ''"
  let ?w = "sampleWorld [?item]"
  have 1: "resolveNotebookId ?item ?w = Some ''nb''" by code_simp
  obtain nbk w1 where 2: "getNotebook ?E ''nb'' ?w = (Inr nbk, w1)"
    and 3: "map source_title (sources nbk) = [''Title one'', ''Untitled'']"
    by (simp add: getNotebook_def rpc_def sampleEnv_def notebookServer_def sampleWorld_def
        parseNotebookDetails_def sampleBuiltins_def sampleResponse_def startsWith_def
        arr_get_def orEmpty_def parseSource_def Let_def extractSourceId_def extractTitle_def
        metaTypeCode_def metaUrl_def extractStatus_def isInteger_def inTypeMap_def
        API_TYPE_MAP_def fallbackTitle_def isURL_def isUUID_def)
  have 4: "item_title ?item \<noteq> []" by (simp add: sampleItem_def)
  have "trim (toLowerCase ''Title one'') = trim (toLowerCase (item_title ?item))" by code_simp
  with 3 have 5: "\<exists>source\<in>set (sources nbk).
           source_title source = item_title ?item \<or>
           trim (toLowerCase (source_title source)) = trim (toLowerCase (item_title ?item))"
    by (cases "sources nbk") auto
  from duplicate_title_stops_item [OF 1 2 4 5] eval_duplicate show ?thesis
    by (auto simp: sampleWorld_def)
qed

text \<open>
  C7, as stated, fails for an item with the empty title: the notebook has a source whose
  title is one space, equal to the empty title after trimming, and the note is uploaded
  all the same (an \<open>izAoDd\<close> call is made and the item is done). The title checks of
  \<open>checkDuplicate\<close> are guarded by \<open>if (title)\<close>.
\<close>

theorem empty_title_counterexample:
  "map source_title (sources (parseNotebookDetails blankTitleBuiltins sampleResponse)) = ['' ''] \<and>
   trim (toLowerCase '' '') = trim (toLowerCase []) \<and>
   map_option (\<lambda>(r, w'). (r, map item_status (uploadQueue w'), map rpcId (rpcLog w')))
     (processItem (sampleEnv blankTitleBuiltins notebookServer) (sampleItem ''a'' [])
        (sampleWorld [sampleItem ''a'' []])) =
   Some (Inr (), [Done], [''rLM1Ne'', ''izAoDd'', ''rLM1Ne''])"
  by code_simp

section \<open>The queue: a note of 500,000 characters\<close>

lemma calls_update [simp]: "addSourceCalls (updateQueueItem ident f w) = addSourceCalls w"
  by (simp add: addSourceCalls_def updateQueueItem_def)

lemma calls_wait [simp]: "addSourceCalls (waitForTextSource E nb title w) = addSourceCalls w"
  by (simp add: addSourceCalls_def waitForTextSource_def getNotebook_def rpc_def warn_def Let_def
      split: sum.splits)

lemma addTextSource_accepted:
  assumes "\<forall>n c. \<exists>r. rpc_response E n c = Inr r"
  shows "\<exists>w'. addTextSource E nb t title w = (Inr (), w') \<and>
              addSourceCalls w' = Suc (addSourceCalls w)"
proof -
  from assms obtain r where "rpc_response E (length (rpcLog w))
      \<lparr>rpcId = ''izAoDd'', params = Arr [Arr [textSourceRow title t], Str nb],
       sourcePath = ''/notebook/'' @ nb\<rparr> = Inr r" by blast
  then show ?thesis
    by (simp add: addTextSource_def rpc_def Let_def addSourceCalls_def
        checkAddTextSourceResponse_def warn_def split: option.splits)
qed

lemma uploadChunks_accepted:
  assumes "\<forall>n c. \<exists>r. rpc_response E n c = Inr r"
  shows "\<exists>w'. uploadChunks E waits nb item n i cs w = (Inr (), w') \<and>
              addSourceCalls w' = addSourceCalls w + length cs \<and>
              map item_chunks (uploadQueue w') = map item_chunks (uploadQueue w)"
proof (induction cs arbitrary: i w)
  case Nil
  then show ?case by simp
next
  case (Cons c cs)
  from addTextSource_accepted [OF assms, of nb c "partTitle (item_title item) (i + 1) n" w]
  obtain w1 where a: "addTextSource E nb c (partTitle (item_title item) (i + 1) n) w = (Inr (), w1)"
    and c1: "addSourceCalls w1 = Suc (addSourceCalls w)" by blast
  have q1: "uploadQueue w1 = uploadQueue w"
    using queue_addTextSource [of E nb c "partTitle (item_title item) (i + 1) n" w] a by simp
  define w3 where "w3 = (if waits \<and> i < n - 1
      then waitForTextSource E nb (partTitle (item_title item) (i + 1) n)
             (updateQueueItem (item_id item)
                (\<lambda>it. it\<lparr>item_currentChunk := Some (i + 1),
                          item_progress := Some (of_int (i + 1) / of_int n * 100)\<rparr>) w1)
      else updateQueueItem (item_id item)
             (\<lambda>it. it\<lparr>item_currentChunk := Some (i + 1),
                       item_progress := Some (of_int (i + 1) / of_int n * 100)\<rparr>) w1)"
  have c3: "addSourceCalls w3 = Suc (addSourceCalls w)" by (simp add: w3_def c1)
  have q3: "map item_chunks (uploadQueue w3) = map item_chunks (uploadQueue w)"
    by (simp add: w3_def q1 updateQueueItem_def)
  have e: "uploadChunks E waits nb item n i (c # cs) w = uploadChunks E waits nb item n (i + 1) cs w3"
    using a by (simp add: w3_def Let_def)
  from Cons [where i = "i + 1" and w = w3] c3 q3 e show ?case by auto
qed

lemma uploadAllChunks_accepted:
  assumes "\<forall>n c. \<exists>r. rpc_response E n c = Inr r"
  shows "\<exists>w'. uploadAllChunks E waits nb item cs w = (Inr (), w') \<and>
              addSourceCalls w' = addSourceCalls w + length cs \<and>
              map item_chunks (uploadQueue w') =
                map (\<lambda>x. if item_id x = item_id item then Some (int (length cs)) else item_chunks x)
                  (uploadQueue w)"
proof -
  define w0 where "w0 = updateQueueItem (item_id item)
      (\<lambda>it. it\<lparr>item_chunks := Some (int (length cs)), item_currentChunk := Some 0\<rparr>) w"
  from uploadChunks_accepted [OF assms, of waits nb item "int (length cs)" 0 cs w0]
  obtain w1 where u: "uploadChunks E waits nb item (int (length cs)) 0 cs w0 = (Inr (), w1)"
    and c: "addSourceCalls w1 = addSourceCalls w0 + length cs"
    and q: "map item_chunks (uploadQueue w1) = map item_chunks (uploadQueue w0)" by blast
  have q0: "map item_chunks (uploadQueue w0) =
      map (\<lambda>x. if item_id x = item_id item then Some (int (length cs)) else item_chunks x)
        (uploadQueue w)"
    by (simp add: w0_def updateQueueItem_def)
  from u c q q0 show ?thesis
    by (simp add: uploadAllChunks_def Let_def w0_def [symmetric]) (simp add: w0_def)
qed

lemma note_of_500000_characters:
  assumes len: "length content = 500000"
  shows "map_option (\<lambda>(r, w'). (r, addSourceCalls w', map item_status (uploadQueue w'),
                        map item_chunks (uploadQueue w')))
           (processItem (sampleEnv sampleBuiltins acceptingServer) (noteWith content)
              (sampleWorld [noteWith content])) =
         Some (Inr (), 1003, [Done], [Some 1003])"
proof -
  let ?E = "sampleEnv sampleBuiltins acceptingServer"
  let ?item = "noteWith content"
  let ?w = "sampleWorld [?item]"
  have ok: "\<forall>n c. \<exists>r. rpc_response ?E n c = Inr r"
    by (simp add: sampleEnv_def acceptingServer_def)
  have id: "item_id ?item = ''a''" and ty: "item_type ?item = Note"
    and co: "item_content ?item = Some content" and ti: "item_title ?item = ''Big''"
    by (simp_all add: noteWith_def sampleItem_def)
  have nb: "resolveNotebookId ?item ?w = Some ''nb''"
    by (simp add: resolveNotebookId_def noteWith_def sampleItem_def orElse_def)
  obtain w1 where cd: "checkDuplicate ?E ''nb'' ?item ?w = (False, w1)"
    and c1: "addSourceCalls w1 = 0" and q1: "uploadQueue w1 = [?item]"
    by (simp add: checkDuplicate_def getNotebook_def rpc_def Let_def sampleEnv_def
        acceptingServer_def parseNotebookDetails_def emptyDetails_def isDuplicateIn_def
        titleMatch_def ty ti addSourceCalls_def sampleWorld_def startsWith_def)
  define wp where "wp = updateQueueItem ''a''
      (\<lambda>it. it\<lparr>item_status := Processing, item_progress := Some 0\<rparr>) w1"
  have cp: "addSourceCalls wp = 0" by (simp add: wp_def c1)
  have qp: "map item_id (uploadQueue wp) = [''a'']" by (simp add: wp_def updateQueueItem_def q1 id)
  from splitText_500000 [OF len] obtain chunks where
    sp: "splitText CHUNK_SIZE DEFAULT_OVERLAP content = Some chunks" and n: "length chunks = 1003"
    by (auto simp: CHUNK_SIZE_def DEFAULT_OVERLAP_def)
  from uploadAllChunks_accepted [OF ok, of True "''nb''" ?item "map chunk_text chunks" wp]
  obtain w2 where u: "uploadAllChunks ?E True ''nb'' ?item (map chunk_text chunks) wp = (Inr (), w2)"
    and c2: "addSourceCalls w2 = 1003"
    and q2: "map item_chunks (uploadQueue w2) =
       map (\<lambda>x. if item_id x = ''a'' then Some 1003 else item_chunks x) (uploadQueue wp)"
    using n cp id by auto
  have i2: "map item_id (uploadQueue w2) = [''a'']"
    using frame_uploadAllChunks' [OF u] qp by (simp add: frame_def)
  have ne: "content \<noteq> []" using len by auto
  have pt: "processByType ?E ''nb'' ?item wp = Some (Inr (), w2)"
    using sp u len ne
    by (simp add: processByType_def ty co orElse_def processText_def CHUNK_SIZE_def)
  have p: "processItem ?E ?item ?w = Some (Inr (), markDone ?item w2)"
    using nb cd pt by (simp add: processItem_def id wp_def)
  from i2 obtain x where x: "uploadQueue w2 = [x]" "item_id x = ''a''"
    by (cases "uploadQueue w2") auto
  from qp obtain y where y: "uploadQueue wp = [y]" "item_id y = ''a''"
    by (cases "uploadQueue wp") auto
  from q2 x y have ch: "item_chunks x = Some 1003" by simp
  show ?thesis
    using p c2 x ch by (simp add: markDone_def id updateQueueItem_def addSourceCalls_def)
qed


text \<open>
  C2. A text of 500,000 characters, split with the chunk size 225,000 and the overlap
  1,000, gives 1003 chunks and not 3: after the chunk that ends at the end of the text,
  \<open>start\<close> moves to 1,000 characters before the end and the loop goes on, one character at
  a time. A note with that content, processed when every call succeeds and the notebook
  has no source, makes 1003 add-source calls, for parts titled from \<open>(Part 1/1003)\<close> on,
  and the item records 1003 chunks.
\<close>

theorem note_of_500000_characters_gives_1003_parts:
  "map_option length (splitText CHUNK_SIZE DEFAULT_OVERLAP (replicate 500000 (CHR ''a''))) =
     Some 1003 \<and>
   map_option (\<lambda>(r, w'). (r, addSourceCalls w', map item_status (uploadQueue w'),
                  map item_chunks (uploadQueue w')))
     (processItem (sampleEnv sampleBuiltins acceptingServer)
        (noteWith (replicate 500000 (CHR ''a'')))
        (sampleWorld [noteWith (replicate 500000 (CHR ''a''))])) =
     Some (Inr (), 1003, [Done], [Some 1003]) \<and>
   partTitle ''Big'' 1 1003 = ''Big (Part 1/1003)''"
proof -
  have "map_option length (splitText CHUNK_SIZE DEFAULT_OVERLAP (replicate 500000 (CHR ''a''))) =
     Some 1003"
    using splitText_500000 [of "replicate 500000 (CHR ''a'')"]
    by (auto simp: CHUNK_SIZE_def DEFAULT_OVERLAP_def)
  moreover have "partTitle ''Big'' 1 1003 = ''Big (Part 1/1003)''"
    by (simp add: partTitle_def showInt_def showNat.simps)
  ultimately show ?thesis
    using note_of_500000_characters [of "replicate 500000 (CHR ''a'')"] by simp
qed

end
